theory Spec2Isabelle
  imports Complex_Main "HOL-Library.List_Lexorder"
begin

section \<open>Python values\<close>

subsection \<open>Binary64 floating point\<close>

text \<open>
  A Python \<open>float\<close> is an IEEE 754 binary64 number.  A finite value is kept as sign,
  integer significand \<open>m\<close> and exponent \<open>e\<close> and stands for \<open>\<plusminus> m * 2 ^ e\<close>; every
  operation rounds its exact result to the nearest representable value, ties to even,
  and returns it in the canonical form \<open>m < 2 ^ 53\<close>, \<open>- 1074 \<le> e \<le> 971\<close>, with
  \<open>2 ^ 52 \<le> m\<close> unless \<open>e = - 1074\<close>.  The sign is kept on zero, because the
  \<open>+.2f\<close> format prints it.
\<close>

datatype pyfloat = Finite bool nat int | Infinity bool | NaN

fun bit_length :: "nat \<Rightarrow> int" where
  "bit_length n = (if n = 0 then 0 else 1 + bit_length (n div 2))"

declare bit_length.simps [simp del]

definition rne_pick :: "nat \<Rightarrow> nat \<Rightarrow> nat \<Rightarrow> nat" where
  "rne_pick f r q =
     (if 2 * r < q then f else if q < 2 * r then f + 1 else if even f then f else f + 1)"

definition rne_frac :: "nat \<Rightarrow> nat \<Rightarrow> nat" where
  \<comment> \<open>the integer nearest to \<open>p / q\<close>, ties to even, for \<open>0 < q\<close>\<close>
  "rne_frac p q = rne_pick (p div q) (p mod q) q"

definition pack :: "bool \<Rightarrow> nat \<Rightarrow> int \<Rightarrow> pyfloat" where
  \<comment> \<open>a rounded significand \<open>m \<le> 2 ^ 53\<close> at exponent \<open>e\<close>: carry and overflow\<close>
  "pack s m e =
     (if m = 9007199254740992
      then (if 971 < e + 1 then Infinity s else Finite s 4503599627370496 (e + 1))
      else if 971 < e then Infinity s
      else Finite s m e)"

definition round_scaled :: "bool \<Rightarrow> nat \<Rightarrow> nat \<Rightarrow> int \<Rightarrow> pyfloat" where
  \<comment> \<open>\<open>p / q\<close> is below \<open>2 ^ 54\<close>, and at least \<open>2 ^ 52\<close> unless \<open>e = - 1074\<close>\<close>
  "round_scaled s p q e =
     (if 9007199254740992 * q \<le> p then pack s (rne_frac p (2 * q)) (e + 1)
      else pack s (rne_frac p q) e)"

definition round_at :: "bool \<Rightarrow> nat \<Rightarrow> nat \<Rightarrow> int \<Rightarrow> pyfloat" where
  "round_at s p q e =
     (if e < 0 then round_scaled s (p * 2 ^ nat (- e)) q e
      else round_scaled s p (q * 2 ^ nat e) e)"

definition round_frac :: "bool \<Rightarrow> nat \<Rightarrow> nat \<Rightarrow> pyfloat" where
  \<comment> \<open>the binary64 value nearest to \<open>\<plusminus> p / q\<close>, for \<open>0 < q\<close>\<close>
  "round_frac s p q =
     (if p = 0 then Finite s 0 (- 1074)
      else round_at s p q (max (bit_length p - bit_length q - 53) (- 1074)))"

definition round_dyadic :: "bool \<Rightarrow> nat \<Rightarrow> int \<Rightarrow> pyfloat" where
  \<comment> \<open>the binary64 value nearest to \<open>\<plusminus> m * 2 ^ e\<close>\<close>
  "round_dyadic s m e =
     (if 0 \<le> e then round_frac s (m * 2 ^ nat e) 1 else round_frac s m (2 ^ nat (- e)))"

definition pow2 :: "int \<Rightarrow> rat" where
  "pow2 e = (if 0 \<le> e then 2 ^ nat e else 1 / 2 ^ nat (- e))"

fun fval :: "pyfloat \<Rightarrow> rat" where
  "fval (Finite s m e) = (if s then - (of_nat m * pow2 e) else of_nat m * pow2 e)"
| "fval _ = 0"

definition float_of_int :: "int \<Rightarrow> pyfloat" where
  "float_of_int i = round_frac (i < 0) (nat \<bar>i\<bar>) 1"

fun fneg :: "pyfloat \<Rightarrow> pyfloat" where
  "fneg (Finite s m e) = Finite (\<not> s) m e"
| "fneg (Infinity s) = Infinity (\<not> s)"
| "fneg NaN = NaN"

fun fmul :: "pyfloat \<Rightarrow> pyfloat \<Rightarrow> pyfloat" where
  "fmul NaN _ = NaN"
| "fmul _ NaN = NaN"
| "fmul (Infinity s) (Infinity t) = Infinity (s \<noteq> t)"
| "fmul (Infinity s) (Finite t n f) = (if n = 0 then NaN else Infinity (s \<noteq> t))"
| "fmul (Finite s m e) (Infinity t) = (if m = 0 then NaN else Infinity (s \<noteq> t))"
| "fmul (Finite s m e) (Finite t n f) = round_dyadic (s \<noteq> t) (m * n) (e + f)"

definition add_aligned :: "bool \<Rightarrow> int \<Rightarrow> int \<Rightarrow> pyfloat" where
  \<comment> \<open>the exact sum \<open>c * 2 ^ g\<close>; an exact zero is negative only if both operands are\<close>
  "add_aligned both_neg c g =
     (if c = 0 then Finite both_neg 0 (- 1074) else round_dyadic (c < 0) (nat \<bar>c\<bar>) g)"

fun fadd :: "pyfloat \<Rightarrow> pyfloat \<Rightarrow> pyfloat" where
  "fadd NaN _ = NaN"
| "fadd _ NaN = NaN"
| "fadd (Infinity s) (Infinity t) = (if s = t then Infinity s else NaN)"
| "fadd (Infinity s) (Finite t n f) = Infinity s"
| "fadd (Finite s m e) (Infinity t) = Infinity t"
| "fadd (Finite s m e) (Finite t n f) =
     add_aligned (s \<and> t) ((if s then - int m else int m) * 2 ^ nat (e - min e f)
                          + (if t then - int n else int n) * 2 ^ nat (f - min e f)) (min e f)"

definition fsub :: "pyfloat \<Rightarrow> pyfloat \<Rightarrow> pyfloat" where
  "fsub x y = fadd x (fneg y)"

fun fdiv :: "pyfloat \<Rightarrow> pyfloat \<Rightarrow> pyfloat" where
  \<comment> \<open>IEEE division; Python raises before it is reached with a zero divisor\<close>
  "fdiv NaN _ = NaN"
| "fdiv _ NaN = NaN"
| "fdiv (Infinity s) (Infinity t) = NaN"
| "fdiv (Infinity s) (Finite t n f) = Infinity (s \<noteq> t)"
| "fdiv (Finite s m e) (Infinity t) = Finite (s \<noteq> t) 0 (- 1074)"
| "fdiv (Finite s m e) (Finite t n f) =
     (if n = 0 then (if m = 0 then NaN else Infinity (s \<noteq> t))
      else round_frac (s \<noteq> t) (m * 2 ^ nat (e - min e f)) (n * 2 ^ nat (f - min e f)))"

fun is_zero :: "pyfloat \<Rightarrow> bool" where
  "is_zero (Finite s m e) = (m = 0)"
| "is_zero _ = False"

fun flt :: "pyfloat \<Rightarrow> pyfloat \<Rightarrow> bool" where
  "flt NaN _ = False"
| "flt _ NaN = False"
| "flt (Infinity s) (Infinity t) = (s \<and> \<not> t)"
| "flt (Infinity s) (Finite t n f) = s"
| "flt (Finite s m e) (Infinity t) = (\<not> t)"
| "flt (Finite s m e) (Finite t n f) = (fval (Finite s m e) < fval (Finite t n f))"

definition fgt :: "pyfloat \<Rightarrow> pyfloat \<Rightarrow> bool" where
  "fgt x y = flt y x"

fun feq :: "pyfloat \<Rightarrow> pyfloat \<Rightarrow> bool" where
  "feq NaN _ = False"
| "feq _ NaN = False"
| "feq (Infinity s) (Infinity t) = (s = t)"
| "feq (Infinity s) (Finite t n f) = False"
| "feq (Finite s m e) (Infinity t) = False"
| "feq (Finite s m e) (Finite t n f) = (fval (Finite s m e) = fval (Finite t n f))"

definition hundredths :: "nat \<Rightarrow> int \<Rightarrow> nat" where
  \<comment> \<open>\<open>m * 2 ^ e * 100\<close> rounded to the nearest integer, ties to even\<close>
  "hundredths m e =
     (if 0 \<le> e then m * 100 * 2 ^ nat e else rne_frac (m * 100) (2 ^ nat (- e)))"

fun py_round2 :: "pyfloat \<Rightarrow> pyfloat" where
  \<comment> \<open>\<open>round(x, 2)\<close>: the exact value rounded to two decimals, ties to even, read back
      as a float; infinities and NaN are returned as they are\<close>
  "py_round2 (Finite s m e) = round_frac s (hundredths m e) 100"
| "py_round2 (Infinity s) = Infinity s"
| "py_round2 NaN = NaN"

definition nano :: pyfloat where
  \<comment> \<open>the literal \<open>1e-9\<close>\<close>
  "nano = round_frac False 1 1000000000"

definition micro :: pyfloat where
  \<comment> \<open>the literal \<open>1e-6\<close>\<close>
  "micro = round_frac False 1 1000000"

definition milli :: pyfloat where
  \<comment> \<open>the literal \<open>1e-3\<close>\<close>
  "milli = round_frac False 1 1000"

definition fle :: "pyfloat \<Rightarrow> pyfloat \<Rightarrow> bool" where
  "fle x y = (flt x y \<or> feq x y)"

definition fzero :: pyfloat where
  "fzero = Finite False 0 (- 1074)"

subsection \<open>Strings\<close>

text \<open>
  A \<open>str\<close> is the list of its code points, so that \<open>length\<close> is Python's \<open>len\<close>.
  ASCII literals are written through \<open>ustr\<close>; other characters are given by their
  code points.
\<close>

type_synonym ustring = "nat list"

definition ustr :: "string \<Rightarrow> ustring" where
  "ustr s = map of_char s"

datatype error =
  ValueError ustring | ZeroDivisionError | ReadError | TypeError | AttributeError | OverflowError

definition py_truediv :: "pyfloat \<Rightarrow> pyfloat \<Rightarrow> error + pyfloat" where
  \<comment> \<open>\<open>x / y\<close> on floats: \<open>ZeroDivisionError\<close> for a zero divisor\<close>
  "py_truediv x y = (if is_zero y then Inl ZeroDivisionError else Inr (fdiv x y))"

fun starts_with :: "ustring \<Rightarrow> ustring \<Rightarrow> bool" where
  \<comment> \<open>\<open>starts_with prefix text\<close> is \<open>text.startswith(prefix)\<close>\<close>
  "starts_with [] text = True"
| "starts_with (p # ps) [] = False"
| "starts_with (p # ps) (c # cs) = (p = c \<and> starts_with ps cs)"

fun contains :: "ustring \<Rightarrow> ustring \<Rightarrow> bool" where
  \<comment> \<open>\<open>contains sub text\<close> is \<open>sub in text\<close>\<close>
  "contains sub [] = (sub = [])"
| "contains sub (c # cs) = (starts_with sub (c # cs) \<or> contains sub cs)"

definition is_space :: "nat \<Rightarrow> bool" where
  \<comment> \<open>the characters of \<open>str.isspace\<close>, which are those of \<open>\s\<close> in a \<open>str\<close> pattern\<close>
  "is_space c =
     ((9 \<le> c \<and> c \<le> 13) \<or> (28 \<le> c \<and> c \<le> 32) \<or> c = 133 \<or> c = 160 \<or> c = 5760
      \<or> (8192 \<le> c \<and> c \<le> 8202) \<or> c = 8232 \<or> c = 8233 \<or> c = 8239 \<or> c = 8287
      \<or> c = 12288)"

definition lstrip :: "ustring \<Rightarrow> ustring" where
  "lstrip t = dropWhile is_space t"

definition rstrip :: "ustring \<Rightarrow> ustring" where
  "rstrip t = rev (dropWhile is_space (rev t))"

definition strip :: "ustring \<Rightarrow> ustring" where
  "strip t = lstrip (rstrip t)"

fun split_acc :: "ustring \<Rightarrow> ustring \<Rightarrow> ustring list" where
  "split_acc cur [] = (if cur = [] then [] else [cur])"
| "split_acc cur (c # cs) =
     (if is_space c then (if cur = [] then split_acc [] cs else cur # split_acc [] cs)
      else split_acc (cur @ [c]) cs)"

definition split_ws :: "ustring \<Rightarrow> ustring list" where
  \<comment> \<open>\<open>text.split()\<close>: the maximal runs of characters that are not whitespace\<close>
  "split_ws t = split_acc [] t"

definition is_linebreak :: "nat \<Rightarrow> bool" where
  "is_linebreak c =
     ((10 \<le> c \<and> c \<le> 13) \<or> (28 \<le> c \<and> c \<le> 30) \<or> c = 133 \<or> c = 8232 \<or> c = 8233)"

fun splitlines_acc :: "ustring \<Rightarrow> ustring \<Rightarrow> ustring list" where
  "splitlines_acc cur [] = (if cur = [] then [] else [cur])"
| "splitlines_acc cur [c] = (if is_linebreak c then [cur] else [cur @ [c]])"
| "splitlines_acc cur (c # d # cs) =
     (if c = 13 \<and> d = 10 then cur # splitlines_acc [] cs
      else if is_linebreak c then cur # splitlines_acc [] (d # cs)
      else splitlines_acc (cur @ [c]) (d # cs))"

definition splitlines :: "ustring \<Rightarrow> ustring list" where
  \<comment> \<open>\<open>text.splitlines()\<close>; \<open>\r\n\<close> is one line boundary\<close>
  "splitlines t = splitlines_acc [] t"

fun join_lines :: "ustring list \<Rightarrow> ustring" where
  \<comment> \<open>\<open>"\n".join(lines)\<close>\<close>
  "join_lines [] = []"
| "join_lines [l] = l"
| "join_lines (l # m # ls) = l @ [10] @ join_lines (m # ls)"

definition ljust :: "nat \<Rightarrow> ustring \<Rightarrow> ustring" where
  \<comment> \<open>the format \<open><n\<close>: padded on the right to width \<open>n\<close>, never cut\<close>
  "ljust n t = t @ replicate (n - length t) 32"

text \<open>
  The decimal digits of \<open>\d\<close> and of \<open>float\<close> are those of the Unicode category Nd.
  Each run of ten has the values 0 to 9 in order; \<open>nd_zeros\<close> lists the zero of each
  run outside ASCII (Unicode 14.0, the version of CPython 3.11).
\<close>

definition nd_zeros :: "nat list" where
  "nd_zeros =
     [1632, 1776, 1984, 2406, 2534, 2662, 2790, 2918, 3046, 3174, 3302, 3430, 3558,
      3664, 3792, 3872, 4160, 4240, 6112, 6160, 6470, 6608, 6784, 6800, 6992, 7088,
      7232, 7248, 42528, 43216, 43264, 43472, 43504, 43600, 44016, 65296, 66720, 68912,
      69734, 69872, 69942, 70096, 70384, 70736, 70864, 71248, 71360, 71472, 71904,
      72016, 72784, 73040, 73120, 92768, 92864, 93008, 120782, 120792, 120802, 120812,
      120822, 123200, 123632, 125264, 130032]"

definition digit_value :: "nat \<Rightarrow> nat option" where
  "digit_value c =
     (if c < 128 then (if 48 \<le> c \<and> c \<le> 57 then Some (c - 48) else None)
      else map_option (\<lambda>z. c - z) (find (\<lambda>z. z \<le> c \<and> c < z + 10) nd_zeros))"

definition is_digit :: "nat \<Rightarrow> bool" where
  "is_digit c = (digit_value c \<noteq> None)"

fun digits_value :: "nat \<Rightarrow> ustring \<Rightarrow> nat" where
  \<comment> \<open>the number written by a string of digits, after the digits read so far\<close>
  "digits_value acc [] = acc"
| "digits_value acc (c # cs) =
     digits_value (10 * acc + (case digit_value c of None \<Rightarrow> 0 | Some v \<Rightarrow> v)) cs"

definition float_of_decimal :: "bool \<Rightarrow> ustring \<Rightarrow> ustring \<Rightarrow> pyfloat" where
  \<comment> \<open>\<open>float\<close> of a sign, integer digits and fraction digits: correctly rounded\<close>
  "float_of_decimal neg ip fp = round_frac neg (digits_value 0 (ip @ fp)) (10 ^ length fp)"

fun show_nat :: "nat \<Rightarrow> ustring" where
  "show_nat n = (if n < 10 then [48 + n] else show_nat (n div 10) @ [48 + n mod 10])"

declare show_nat.simps [simp del]

definition sign_text :: "bool \<Rightarrow> bool \<Rightarrow> ustring" where
  \<comment> \<open>the sign printed with (\<open>flag\<close>) or without the format flag \<open>+\<close>\<close>
  "sign_text flag s = (if s then [45] else if flag then [43] else [])"

definition fixed2 :: "nat \<Rightarrow> ustring" where
  \<comment> \<open>a number of hundredths with two places after the point\<close>
  "fixed2 n = show_nat (n div 100) @ [46, 48 + (n mod 100) div 10, 48 + n mod 10]"

fun fmt_2f :: "bool \<Rightarrow> pyfloat \<Rightarrow> ustring" where
  \<comment> \<open>the formats \<open>+.2f\<close> (\<open>flag\<close>) and \<open>.2f\<close>: the exact value rounded to two
      decimals, ties to even\<close>
  "fmt_2f flag (Finite s m e) = sign_text flag s @ fixed2 (hundredths m e)"
| "fmt_2f flag (Infinity s) = sign_text flag s @ ustr ''inf''"
| "fmt_2f flag NaN = sign_text flag False @ ustr ''nan''"

definition sub_benchmark :: "ustring \<Rightarrow> ustring" where
  \<comment> \<open>\<open>re.sub(r"^Benchmark", "", text)\<close>\<close>
  "sub_benchmark t = (if starts_with (ustr ''Benchmark'') t then drop 9 t else t)"

section \<open>The Normalizer (format\_benchmark\_data.py)\<close>

text \<open>
  The input is what \<open>json.load\<close> returns.  A JSON number without fraction and exponent
  is a Python \<open>int\<close>, of any size; any other number is a \<open>float\<close>, and the constants
  \<open>NaN\<close>, \<open>Infinity\<close> and \<open>-Infinity\<close> are accepted as floats.  An object is kept as the
  list of its members in the order of the document; in the \<open>dict\<close> built from them a
  later member replaces an earlier one with the same key.
\<close>

datatype json =
  JNull | JBool bool | JInt int | JFloat pyfloat | JString ustring
  | JArray "json list" | JObject "(ustring \<times> json) list"

record bench =
  bench_name :: ustring
  bench_value :: pyfloat
  bench_unit :: ustring
  bench_extra :: ustring

definition lookup :: "(ustring \<times> json) list \<Rightarrow> ustring \<Rightarrow> json \<Rightarrow> json" where
  \<comment> \<open>\<open>d.get(key, default)\<close> on the \<open>dict\<close> of an object\<close>
  "lookup members key dflt =
     (case map_of (rev members) key of None \<Rightarrow> dflt | Some v \<Rightarrow> v)"

fun py_get :: "json \<Rightarrow> ustring \<Rightarrow> json \<Rightarrow> error + json" where
  \<comment> \<open>\<open>value.get(key, default)\<close>: only a \<open>dict\<close> has the method\<close>
  "py_get (JObject members) key dflt = Inr (lookup members key dflt)"
| "py_get other key dflt = Inl AttributeError"

fun get_of :: "error + json \<Rightarrow> ustring \<Rightarrow> json \<Rightarrow> error + json" where
  \<comment> \<open>\<open>.get\<close> on the result of an expression that may have raised\<close>
  "get_of (Inl e) key dflt = Inl e"
| "get_of (Inr other) key dflt = py_get other key dflt"

fun normalize_name :: "json \<Rightarrow> error + ustring" where
  \<comment> \<open>\<open>re.sub\<close> raises \<open>TypeError\<close> for an argument that is not a string\<close>
  "normalize_name (JString n) = Inr (sub_benchmark n)"
| "normalize_name other = Inl TypeError"

fun name_of :: "error + json \<Rightarrow> error + ustring" where
  "name_of (Inl e) = Inl e"
| "name_of (Inr other) = normalize_name other"

definition get_name :: "json \<Rightarrow> error + ustring" where
  \<comment> \<open>\<open>normalize_name(bench.get("benchmark", ""))\<close>\<close>
  "get_name b = name_of (py_get b (ustr ''benchmark'') (JString []))"

definition get_score :: "json \<Rightarrow> error + json" where
  \<comment> \<open>\<open>bench.get("primaryMetric", {}).get("score", 0)\<close>\<close>
  "get_score b = get_of (py_get b (ustr ''primaryMetric'') (JObject [])) (ustr ''score'') (JInt 0)"

definition get_scoreUnit :: "json \<Rightarrow> error + json" where
  \<comment> \<open>\<open>bench.get("primaryMetric", {}).get("scoreUnit", "")\<close>\<close>
  "get_scoreUnit b =
     get_of (py_get b (ustr ''primaryMetric'') (JObject [])) (ustr ''scoreUnit'') (JString [])"

fun gt_zero :: "json \<Rightarrow> error + bool" where
  \<comment> \<open>\<open>score > 0\<close>: an \<open>int\<close> (a \<open>bool\<close> is one) is compared exactly; \<open>TypeError\<close> for
      a value that is not a number\<close>
  "gt_zero (JInt n) = Inr (0 < n)"
| "gt_zero (JBool b) = Inr b"
| "gt_zero (JFloat x) = Inr (fgt x fzero)"
| "gt_zero other = Inl TypeError"

fun passes :: "error + bool \<Rightarrow> json \<Rightarrow> error + bool" where
  \<comment> \<open>\<open>score > 0 and unit == "ops/s"\<close>, given the result of \<open>score > 0\<close>\<close>
  "passes (Inl e) unit = Inl e"
| "passes (Inr is_pos) unit = Inr (is_pos \<and> unit = JString (ustr ''ops/s''))"

fun overflows :: "pyfloat \<Rightarrow> bool" where
  "overflows (Infinity s) = True"
| "overflows x = False"

definition as_double :: "int \<Rightarrow> error + pyfloat" where
  \<comment> \<open>the conversion of an \<open>int\<close> operand of a float operation: the nearest float, or
      \<open>OverflowError\<close> when that is beyond the largest float\<close>
  "as_double n =
     (if overflows (float_of_int n) then Inl OverflowError else Inr (float_of_int n))"

fun one_by :: "error + pyfloat \<Rightarrow> error + pyfloat" where
  "one_by (Inl e) = Inl e"
| "one_by (Inr x) = py_truediv (float_of_int 1) x"

fun one_over :: "json \<Rightarrow> error + pyfloat" where
  \<comment> \<open>\<open>1.0 / score\<close>\<close>
  "one_over (JFloat x) = py_truediv (float_of_int 1) x"
| "one_over (JInt n) = one_by (as_double n)"
| "one_over (JBool b) = one_by (as_double (if b then 1 else 0))"
| "one_over other = Inl TypeError"

fun ns_per_op :: "error + pyfloat \<Rightarrow> error + pyfloat" where
  \<comment> \<open>\<open>round((1.0 / score) * 1e9, 2)\<close>, given the result of the division\<close>
  "ns_per_op (Inl e) = Inl e"
| "ns_per_op (Inr per_op) = Inr (py_round2 (fmul per_op (float_of_int 1000000000)))"

fun append_bench :: "bench list \<Rightarrow> ustring \<Rightarrow> error + pyfloat \<Rightarrow> error + bench list" where
  "append_bench benches n (Inl e) = Inl e"
| "append_bench benches n (Inr v) =
     Inr (benches @ [\<lparr>bench_name = n, bench_value = v, bench_unit = ustr ''ns/op'',
                      bench_extra = []\<rparr>])"

fun convert :: "bench list \<Rightarrow> ustring \<Rightarrow> json \<Rightarrow> error + bool \<Rightarrow> error + bench list" where
  \<comment> \<open>the \<open>if\<close> statement of the loop body, given the result of its condition\<close>
  "convert benches n s (Inl e) = Inl e"
| "convert benches n s (Inr keep) =
     (if keep then append_bench benches n (ns_per_op (one_over s)) else Inr benches)"

fun loop_body ::
  "bench list \<Rightarrow> error + ustring \<Rightarrow> error + json \<Rightarrow> error + json \<Rightarrow> error + bench list" where
  \<comment> \<open>the loop body, given the results of its first three lines in their order\<close>
  "loop_body benches (Inl e) score unit = Inl e"
| "loop_body benches (Inr n) (Inl e) unit = Inl e"
| "loop_body benches (Inr n) (Inr s) (Inl e) = Inl e"
| "loop_body benches (Inr n) (Inr s) (Inr u) = convert benches n s (passes (gt_zero s) u)"

fun bench_loop :: "json list \<Rightarrow> error + bench list \<Rightarrow> error + bench list" where
  \<comment> \<open>the loop \<open>for bench in data\<close> of \<open>main\<close> over the elements of \<open>data\<close>; the second
      argument is the list \<open>benches\<close> so far, or the exception that ended the loop\<close>
  "bench_loop data (Inl e) = Inl e"
| "bench_loop [] (Inr benches) = Inr benches"
| "bench_loop (b # data) (Inr benches) =
     bench_loop data (loop_body benches (get_name b) (get_score b) (get_scoreUnit b))"

fun iterate :: "json \<Rightarrow> error + json list" where
  \<comment> \<open>what \<open>for bench in data\<close> iterates over: the elements of a list, the keys of a
      \<open>dict\<close>, the characters of a string; \<open>TypeError\<close> for any other value\<close>
  "iterate (JArray elements) = Inr elements"
| "iterate (JObject members) = Inr (map JString (rev (remdups (rev (map fst members)))))"
| "iterate (JString s) = Inr (map (\<lambda>c. JString [c]) s)"
| "iterate other = Inl TypeError"

fun loop_over :: "error + json list \<Rightarrow> error + bench list" where
  "loop_over (Inl e) = Inl e"
| "loop_over (Inr elements) = bench_loop elements (Inr [])"

definition main_benches :: "json \<Rightarrow> error + bench list" where
  \<comment> \<open>the list \<open>benches\<close> after the loop of \<open>main\<close>, or the exception that ended it\<close>
  "main_benches data = loop_over (iterate data)"

definition sign_clear :: "pyfloat \<Rightarrow> bool" where
  \<comment> \<open>a float that is not NaN and whose sign bit is clear\<close>
  "sign_clear x = (case x of Finite s m e \<Rightarrow> \<not> s | Infinity s \<Rightarrow> \<not> s | NaN \<Rightarrow> False)"

subsection \<open>The documented input and output\<close>

text \<open>
  The input format is a list of objects
  \<open>{"benchmark": string, "primaryMetric": {"score": number, "scoreUnit": string}}\<close>.
  A record has this shape when it is an object, its \<open>benchmark\<close> is a string or absent,
  its \<open>primaryMetric\<close> is an object or absent, and its \<open>score\<close> is a number or absent;
  an absent member stands for the default the source gives to \<open>get\<close>.  A score has a
  float value when it is a float, or an integer whose nearest float is finite.
\<close>

fun entry :: "json \<Rightarrow> ustring \<Rightarrow> json \<Rightarrow> json" where
  "entry (JObject members) key dflt = lookup members key dflt"
| "entry other key dflt = dflt"

definition raw_benchmark :: "json \<Rightarrow> json" where
  "raw_benchmark b = entry b (ustr ''benchmark'') (JString [])"

definition raw_metric :: "json \<Rightarrow> json" where
  "raw_metric b = entry b (ustr ''primaryMetric'') (JObject [])"

definition raw_score :: "json \<Rightarrow> json" where
  "raw_score b = entry (raw_metric b) (ustr ''score'') (JInt 0)"

definition raw_unit :: "json \<Rightarrow> json" where
  "raw_unit b = entry (raw_metric b) (ustr ''scoreUnit'') (JString [])"

fun is_object :: "json \<Rightarrow> bool" where
  "is_object (JObject members) = True"
| "is_object other = False"

fun is_string :: "json \<Rightarrow> bool" where
  "is_string (JString s) = True"
| "is_string other = False"

fun string_of :: "json \<Rightarrow> ustring" where
  "string_of (JString s) = s"
| "string_of other = []"

fun has_float_value :: "json \<Rightarrow> bool" where
  "has_float_value (JFloat x) = True"
| "has_float_value (JInt n) = (\<not> overflows (float_of_int n))"
| "has_float_value other = False"

fun float_value :: "json \<Rightarrow> pyfloat" where
  "float_value (JFloat x) = x"
| "float_value (JInt n) = float_of_int n"
| "float_value other = NaN"

fun positive_score :: "json \<Rightarrow> bool" where
  "positive_score (JFloat x) = fgt x fzero"
| "positive_score (JInt n) = (0 < n)"
| "positive_score other = False"

definition raw_result :: "json \<Rightarrow> bool" where
  "raw_result b \<longleftrightarrow>
     is_object b \<and> is_string (raw_benchmark b) \<and> is_object (raw_metric b)
     \<and> has_float_value (raw_score b)"

definition spec_included :: "json \<Rightarrow> bool" where
  \<comment> \<open>the score is strictly positive and the unit is exactly \<open>ops/s\<close>\<close>
  "spec_included b \<longleftrightarrow> positive_score (raw_score b) \<and> raw_unit b = JString (ustr ''ops/s'')"

definition spec_bench :: "json \<Rightarrow> bench" where
  \<comment> \<open>the record emitted for an included input record: the value is
      \<open>(1.0 / score) * 1e9\<close> rounded to two decimals\<close>
  "spec_bench b =
     \<lparr>bench_name = sub_benchmark (string_of (raw_benchmark b)),
      bench_value = py_round2 (fmul (fdiv (float_of_int 1) (float_value (raw_score b)))
                                    (float_of_int 1000000000)),
      bench_unit = ustr ''ns/op'', bench_extra = []\<rparr>"

section \<open>TableReflow (benchmark\_formatter.py)\<close>

subsection \<open>Line classification\<close>

definition INDENT :: ustring where
  "INDENT = replicate 8 32"

definition is_fence :: "ustring \<Rightarrow> bool" where
  \<comment> \<open>\<open>line.strip().startswith("```")\<close>; the code point of the backquote is 96\<close>
  "is_fence line = starts_with [96, 96, 96] (strip line)"

definition superscripts :: "nat list" where
  \<comment> \<open>the superscript digits 1, 2, 3, 4, 5, 6, 7, 8, 9, 0 of the two patterns\<close>
  "superscripts = [185, 178, 179, 8308, 8309, 8310, 8311, 8312, 8313, 8304]"

fun starts_superscript :: "ustring \<Rightarrow> bool" where
  \<comment> \<open>\<open>re.match(r"^\s*[...]", line)\<close> with the superscript digits in the class\<close>
  "starts_superscript [] = False"
| "starts_superscript (c # cs) =
     (if is_space c then starts_superscript cs else c \<in> set superscripts)"

text \<open>
  The pattern \<open>need\s*>?=\s*\d+\s+samples\<close>.  Each repetition is followed by a
  character outside its class, so the longest run is the only one that can match.
\<close>

definition need_gap :: "ustring \<Rightarrow> bool" where
  "need_gap t =
     (if takeWhile is_space t = [] then False
      else starts_with (ustr ''samples'') (dropWhile is_space t))"

definition need_count :: "ustring \<Rightarrow> bool" where
  "need_count t =
     (if takeWhile is_digit t = [] then False else need_gap (dropWhile is_digit t))"

definition need_eq :: "ustring \<Rightarrow> bool" where
  "need_eq t = (if starts_with [61] t then need_count (dropWhile is_space (tl t)) else False)"

definition match_need :: "ustring \<Rightarrow> bool" where
  \<comment> \<open>the pattern matches at the start of the text\<close>
  "match_need t =
     (if starts_with (ustr ''need'') t
      then (if starts_with [62] (dropWhile is_space (drop 4 t))
            then need_eq (tl (dropWhile is_space (drop 4 t)))
            else need_eq (dropWhile is_space (drop 4 t)))
      else False)"

fun search_need :: "ustring \<Rightarrow> bool" where
  \<comment> \<open>\<open>re.search\<close> of the pattern: it matches at some position\<close>
  "search_need [] = False"
| "search_need (c # cs) = (if match_need (c # cs) then True else search_need cs)"

definition is_footnote :: "ustring \<Rightarrow> bool" where
  "is_footnote line = (starts_superscript line \<or> search_need line)"

definition is_metadata :: "ustring \<Rightarrow> bool" where
  \<comment> \<open>a blank line, or one that starts with \<open>goos:\<close>, \<open>goarch:\<close>, \<open>pkg:\<close> or \<open>cpu:\<close>\<close>
  "is_metadata line =
     (strip line = [] \<or> starts_with (ustr ''goos:'') (strip line)
      \<or> starts_with (ustr ''goarch:'') (strip line) \<or> starts_with (ustr ''pkg:'') (strip line)
      \<or> starts_with (ustr ''cpu:'') (strip line))"

definition is_header :: "ustring \<Rightarrow> bool" where
  \<comment> \<open>the box-drawing divider (code point 9474) and one of the three phrases\<close>
  "is_header line =
     (9474 \<in> set line
      \<and> (contains (ustr ''vs base'') line \<or> contains (ustr ''old'') line
           \<or> contains (ustr ''new'') line))"

subsection \<open>The worker suffix\<close>

text \<open>
  The substitution \<open>re.sub(r"(\S+?)-\d+(\s|$)", r"\1\2", text)\<close>.  At each position
  from the left the pattern is tried; group 1 starts with one character and grows by
  one character while the rest of the pattern fails.  A digit is neither whitespace
  nor the end, so of the runs of digits only the longest can be followed by group 2.
  After a match the scan goes on behind it.
\<close>

definition digits_end :: "ustring \<Rightarrow> (ustring \<times> ustring) option" where
  \<comment> \<open>\<open>(\s|$)\<close>: group 2 and the text behind the match\<close>
  "digits_end r =
     (if r = [] then Some ([], []) else if is_space (hd r) then Some ([hd r], tl r) else None)"

definition suffix_tail :: "ustring \<Rightarrow> (ustring \<times> ustring) option" where
  \<comment> \<open>\<open>-\d+(\s|$)\<close> at the start of the text\<close>
  "suffix_tail t =
     (if starts_with [45] t \<and> takeWhile is_digit (tl t) \<noteq> []
      then digits_end (dropWhile is_digit (tl t)) else None)"

fun with_group :: "ustring \<Rightarrow> (ustring \<times> ustring) option \<Rightarrow> (ustring \<times> ustring \<times> ustring) option" where
  "with_group g None = None"
| "with_group g (Some (g2, r)) = Some (g, g2, r)"

fun lazy_group :: "ustring \<Rightarrow> ustring \<Rightarrow> (ustring \<times> ustring \<times> ustring) option" where
  \<comment> \<open>group 1 so far, and the text behind it\<close>
  "lazy_group g [] = None"
| "lazy_group g (c # cs) =
     (if suffix_tail (c # cs) \<noteq> None then with_group g (suffix_tail (c # cs))
      else if is_space c then None
      else lazy_group (g @ [c]) cs)"

fun match_worker :: "ustring \<Rightarrow> (ustring \<times> ustring \<times> ustring) option" where
  \<comment> \<open>the pattern at the start of the text: groups 1 and 2, and the text behind\<close>
  "match_worker [] = None"
| "match_worker (c # cs) = (if is_space c then None else lazy_group [c] cs)"

lemma digits_end_length: "digits_end r = Some (g2, r') \<Longrightarrow> length r' \<le> length r"
  by (cases r) (auto simp: digits_end_def split: if_splits)

lemma suffix_tail_length: "suffix_tail t = Some (g2, r) \<Longrightarrow> length r < length t"
proof -
  assume a: "suffix_tail t = Some (g2, r)"
  then obtain cs where t: "t = 45 # cs"
    by (cases t) (auto simp: suffix_tail_def split: if_splits)
  from a t have "digits_end (dropWhile is_digit cs) = Some (g2, r)"
    by (simp add: suffix_tail_def split: if_splits)
  then have "length r \<le> length (dropWhile is_digit cs)"
    by (rule digits_end_length)
  also have "\<dots> \<le> length cs"
    by (rule length_dropWhile_le)
  finally show ?thesis using t by simp
qed

lemma lazy_group_length: "lazy_group g t = Some (g1, g2, r) \<Longrightarrow> length r < length t"
proof (induction g t rule: lazy_group.induct)
  case (1 g)
  then show ?case by simp
next
  case (2 g c cs)
  show ?case
  proof (cases "suffix_tail (c # cs)")
    case None
    with 2 show ?thesis by (auto split: if_splits)
  next
    case (Some p)
    with 2 suffix_tail_length [of "c # cs" "fst p" "snd p"] show ?thesis
      by (cases p) auto
  qed
qed

lemma match_worker_length: "match_worker t = Some (g1, g2, r) \<Longrightarrow> length r < length t"
  using lazy_group_length [of "[hd t]" "tl t" g1 g2 r]
  by (cases t) (auto split: if_splits)

function sub_worker :: "ustring \<Rightarrow> ustring" where
  "sub_worker [] = []"
| "sub_worker (c # cs) =
     (if match_worker (c # cs) = None then c # sub_worker cs
      else (case match_worker (c # cs) of
              Some (g1, g2, r) \<Rightarrow> g1 @ g2 @ sub_worker r
            | None \<Rightarrow> []))"
  by pat_completeness auto
termination
  by (relation "measure length") (auto simp del: match_worker.simps dest: match_worker_length)

definition strip_worker_suffix :: "ustring \<Rightarrow> ustring" where
  "strip_worker_suffix text = sub_worker (sub_benchmark text)"

subsection \<open>Numeric tokens\<close>

definition get_icon :: "pyfloat \<Rightarrow> ustring" where
  \<comment> \<open>the snail (128012), the rocket (128640), the arrow with its variation selector\<close>
  "get_icon diff_val =
     (if fgt diff_val (float_of_int 10) then [128012]
      else if flt diff_val (float_of_int (- 10)) then [128640]
      else [10145, 65039])"

definition clean_superscripts :: "ustring \<Rightarrow> ustring" where
  "clean_superscripts t = filter (\<lambda>c. c \<notin> set superscripts) t"

definition before_first :: "nat \<Rightarrow> ustring \<Rightarrow> ustring" where
  \<comment> \<open>\<open>text.split(sep)[0]\<close> for a separator of one character\<close>
  "before_first sep t = takeWhile (\<lambda>c. c \<noteq> sep) t"

definition is_unit_letter :: "nat \<Rightarrow> bool" where
  \<comment> \<open>the class \<open>[a-zA-Z\<mu>]\<close>; the micro sign is 181\<close>
  "is_unit_letter c = ((65 \<le> c \<and> c \<le> 90) \<or> (97 \<le> c \<and> c \<le> 122) \<or> c = 181)"

text \<open>
  The pattern \<open>^([-+]?\d*\.?\d+)([a-zA-Z\<mu>]+)?$\<close> on a token without trailing
  whitespace.  A match is the sign, the digits before the point, the digits behind it
  and the suffix.  When a point follows the first digits it belongs to the number and
  needs a digit behind it; otherwise the first digits are the number and cannot be
  empty; what is left must be letters up to the end.
\<close>

definition number_suffix ::
  "bool \<Rightarrow> ustring \<Rightarrow> ustring \<Rightarrow> ustring \<Rightarrow> (bool \<times> ustring \<times> ustring \<times> ustring) option" where
  "number_suffix neg ip fp suf =
     (if list_all is_unit_letter suf then Some (neg, ip, fp, suf) else None)"

definition number_fraction ::
  "bool \<Rightarrow> ustring \<Rightarrow> ustring \<Rightarrow> (bool \<times> ustring \<times> ustring \<times> ustring) option" where
  "number_fraction neg ip r =
     (if takeWhile is_digit r = [] then None
      else number_suffix neg ip (takeWhile is_digit r) (dropWhile is_digit r))"

definition number_point ::
  "bool \<Rightarrow> ustring \<Rightarrow> ustring \<Rightarrow> (bool \<times> ustring \<times> ustring \<times> ustring) option" where
  "number_point neg ip r =
     (if starts_with [46] r then number_fraction neg ip (tl r)
      else if ip = [] then None
      else number_suffix neg ip [] r)"

definition number_digits ::
  "bool \<Rightarrow> ustring \<Rightarrow> (bool \<times> ustring \<times> ustring \<times> ustring) option" where
  "number_digits neg t = number_point neg (takeWhile is_digit t) (dropWhile is_digit t)"

definition match_number :: "ustring \<Rightarrow> (bool \<times> ustring \<times> ustring \<times> ustring) option" where
  "match_number t =
     (if starts_with [45] t then number_digits True (tl t)
      else if starts_with [43] t then number_digits False (tl t)
      else number_digits False t)"

definition scale_by :: "ustring \<Rightarrow> pyfloat \<Rightarrow> error + pyfloat option" where
  \<comment> \<open>the value in seconds for a suffix in which the micro sign is already \<open>u\<close>\<close>
  "scale_by suffix v =
     (if suffix \<in> set [ustr ''n'', ustr ''ns''] then Inr (Some (fmul v nano))
      else if suffix \<in> set [ustr ''u'', ustr ''us''] then Inr (Some (fmul v micro))
      else if suffix \<in> set [ustr ''m'', ustr ''ms''] then Inr (Some (fmul v milli))
      else if suffix = ustr ''s'' then Inr (Some v)
      else if suffix = [] then Inr (Some v)
      else Inl (ValueError (ustr ''Unexpected unit: '' @ suffix)))"

fun parse_match :: "(bool \<times> ustring \<times> ustring \<times> ustring) option \<Rightarrow> error + pyfloat option" where
  \<comment> \<open>\<open>float\<close> accepts every string that group 1 can be, so its \<open>ValueError\<close> branch
      is never taken\<close>
  "parse_match None = Inr None"
| "parse_match (Some (neg, ip, fp, suf)) =
     scale_by (map (\<lambda>c. if c = 181 then 117 else c) suf) (float_of_decimal neg ip fp)"

definition parse_token :: "ustring \<Rightarrow> error + pyfloat option" where
  "parse_token t = (if t = [] then Inr None else parse_match (match_number t))"

definition parse_val :: "ustring \<Rightarrow> error + pyfloat option" where
  \<comment> \<open>37 is the percent sign, 61 the equals sign, 177 plus-minus, 40 the parenthesis\<close>
  "parse_val token =
     (if 37 \<in> set token \<or> 61 \<in> set token then Inr None
      else parse_token
             (strip (before_first 40 (strip (before_first 177 (clean_superscripts token))))))"

definition separators :: "ustring list" where
  \<comment> \<open>plus-minus, infinity, tilde, the box-drawing divider, the vertical bar\<close>
  "separators = [[177], [8734], [126], [9474], [124]]"

fun add_found :: "pyfloat list \<Rightarrow> error + pyfloat option \<Rightarrow> error + pyfloat list" where
  "add_found found (Inl e) = Inl e"
| "add_found found (Inr None) = Inr found"
| "add_found found (Inr (Some v)) = Inr (found @ [v])"

fun extract_loop :: "ustring list \<Rightarrow> error + pyfloat list \<Rightarrow> error + pyfloat list" where
  \<comment> \<open>the loop of \<open>extract_two_numbers\<close>; the second argument is \<open>found\<close>, or the
      exception that ended the loop.  The \<open>break\<close> after the second number is the
      test at the head of the next round.\<close>
  "extract_loop ts (Inl e) = Inl e"
| "extract_loop [] (Inr found) = Inr found"
| "extract_loop (t # ts) (Inr found) =
     (if length found = 2 then Inr found
      else if t \<in> set separators then extract_loop ts (Inr found)
      else if 37 \<in> set t \<or> 61 \<in> set t then extract_loop ts (Inr found)
      else if starts_with (ustr ''p='') t \<or> starts_with (ustr ''n='') t
      then extract_loop ts (Inr found)
      else extract_loop ts (add_found found (parse_val t)))"

definition extract_two_numbers :: "ustring list \<Rightarrow> error + pyfloat list" where
  "extract_two_numbers tokens = extract_loop (drop 1 tokens) (Inr [])"

subsection \<open>The two passes\<close>

fun width_pass :: "ustring list \<Rightarrow> bool \<Rightarrow> int \<Rightarrow> bool \<times> int" where
  \<comment> \<open>pass 0, on \<open>in_code\<close> and \<open>max_content_width\<close>; both are returned\<close>
  "width_pass [] in_code w = (in_code, w)"
| "width_pass (line # lines) in_code w =
     (if is_fence line then width_pass lines (\<not> in_code) w
      else if \<not> in_code then width_pass lines in_code w
      else if is_footnote line then width_pass lines in_code w
      else if is_metadata line then width_pass lines in_code w
      else if is_header line then width_pass lines in_code w
      else if w < int (length (rstrip (strip_worker_suffix line)))
      then width_pass lines in_code (int (length (rstrip (strip_worker_suffix line))))
      else width_pass lines in_code w)"

definition pad_to :: "int \<Rightarrow> ustring \<Rightarrow> ustring" where
  \<comment> \<open>the left part up to the diff column, or two spaces behind a longer left part\<close>
  "pad_to diff_col_start left_part =
     (if int (length left_part) < diff_col_start
      then left_part @ replicate (nat (diff_col_start - int (length left_part))) 32
      else left_part @ [32, 32])"

definition append_aligned :: "int \<Rightarrow> ustring \<Rightarrow> ustring \<Rightarrow> ustring" where
  "append_aligned diff_col_start left_part content =
     INDENT @ pad_to diff_col_start left_part @ content"

definition ci_diff :: "ustring \<Rightarrow> bool" where
  \<comment> \<open>the text starts with \<open>Diff\<close> under \<open>re.IGNORECASE\<close>, where \<open>i\<close> also matches
      the dotted capital (304) and the dotless small letter (305)\<close>
  "ci_diff t =
     (case t of
        a # b # c # d # r \<Rightarrow>
          a \<in> set [68, 100] \<and> b \<in> set [73, 105, 304, 305] \<and> c \<in> set [70, 102]
          \<and> d \<in> set [70, 102]
      | _ \<Rightarrow> False)"

definition match_diff :: "ustring \<Rightarrow> bool" where
  \<comment> \<open>\<open>\s+Diff\s*$\<close> at the start of the text\<close>
  "match_diff t =
     (if takeWhile is_space t = [] then False
      else if ci_diff (dropWhile is_space t)
      then list_all is_space (drop 4 (dropWhile is_space t))
      else False)"

fun sub_diff :: "ustring \<Rightarrow> ustring" where
  \<comment> \<open>the substitution of the pattern by the empty string\<close>
  "sub_diff [] = []"
| "sub_diff (c # cs) = (if match_diff (c # cs) then [] else c # sub_diff cs)"

definition rstrip_divider :: "ustring \<Rightarrow> ustring" where
  "rstrip_divider t = rev (dropWhile (\<lambda>c. c = 9474) (rev t))"

definition stripped_header :: "ustring \<Rightarrow> ustring" where
  "stripped_header line = sub_diff (rstrip (rstrip_divider (rstrip line)))"

definition new_header :: "int \<Rightarrow> ustring \<Rightarrow> ustring" where
  "new_header diff_col_start line =
     pad_to diff_col_start (stripped_header line)
     @ (if contains (ustr ''vs base'') line then ustr ''Diff'' else []) @ [9474]"

definition diff_percent :: "pyfloat \<Rightarrow> pyfloat \<Rightarrow> error + pyfloat" where
  \<comment> \<open>\<open>(numbers[1] - numbers[0]) / numbers[0]\<close>, before the multiplication by 100\<close>
  "diff_percent base cand = py_truediv (fsub cand base) base"

fun diff_column :: "int \<Rightarrow> ustring \<Rightarrow> error + pyfloat \<Rightarrow> error + ustring" where
  "diff_column d left_part (Inl e) = Inl e"
| "diff_column d left_part (Inr q) =
     Inr (append_aligned d left_part
            (fmt_2f True (fmul q (float_of_int 100)) @ [37, 32]
             @ get_icon (fmul q (float_of_int 100))))"

fun diff_line :: "int \<Rightarrow> ustring \<Rightarrow> error + pyfloat list \<Rightarrow> error + ustring" where
  \<comment> \<open>the end of the loop body for a data line, given the result of
      \<open>extract_two_numbers\<close>\<close>
  "diff_line d line (Inl e) = Inl e"
| "diff_line d line (Inr [base, cand]) =
     (if feq base fzero then Inr (INDENT @ line)
      else diff_column d (rstrip line) (diff_percent base cand))"
| "diff_line d line (Inr numbers) = Inr (INDENT @ line)"

definition data_line :: "int \<Rightarrow> ustring \<Rightarrow> error + ustring" where
  \<comment> \<open>a data line, after \<open>strip_worker_suffix\<close>\<close>
  "data_line d line =
     (if split_ws line = [] then Inr (INDENT @ line)
      else diff_line d line (extract_two_numbers (split_ws line)))"

definition reflow_line :: "int \<Rightarrow> ustring \<Rightarrow> error + ustring" where
  \<comment> \<open>the loop body of the second pass for a line inside the fenced region\<close>
  "reflow_line d line =
     (if is_footnote line then Inr (INDENT @ line)
      else if is_header line then Inr (INDENT @ new_header d line)
      else if is_metadata line then Inr (INDENT @ line)
      else data_line d (strip_worker_suffix line))"

fun append_line :: "ustring list \<Rightarrow> error + ustring \<Rightarrow> error + ustring list" where
  "append_line processed (Inl e) = Inl e"
| "append_line processed (Inr out) = Inr (processed @ [out])"

fun emission_pass ::
  "int \<Rightarrow> bool \<Rightarrow> ustring list \<Rightarrow> error + ustring list \<Rightarrow> error + ustring list" where
  \<comment> \<open>the second pass, on \<open>in_code\<close>; the last argument is \<open>processed_lines\<close>, or
      the exception that ended the loop\<close>
  "emission_pass d in_code lines (Inl e) = Inl e"
| "emission_pass d in_code [] (Inr processed) = Inr processed"
| "emission_pass d in_code (line # lines) (Inr processed) =
     (if is_fence line then emission_pass d (\<not> in_code) lines (Inr (processed @ [line]))
      else if \<not> in_code then emission_pass d in_code lines (Inr (processed @ [line]))
      else emission_pass d in_code lines (append_line processed (reflow_line d line)))"

subsection \<open>The script\<close>

text \<open>
  The file \<open>comparison.md\<close> is missing, or reading it raises, or it has a text.  The
  outcome of a run is the exit status, the file afterwards and what was printed.
  \<open>in_code\<close> is not set again between the passes: the second pass starts with the
  value the first pass ends with.
\<close>

datatype file_state = Missing | Unreadable | Text ustring

datatype message = NotFound | PostProcessingError error

record outcome =
  exit_status :: nat
  file_after :: file_state
  printed :: "message list"

fun second_pass :: "ustring list \<Rightarrow> bool \<times> int \<Rightarrow> error + ustring list" where
  \<comment> \<open>\<open>diff_col_start = max_content_width - 13\<close>\<close>
  "second_pass lines (in_code, max_content_width) =
     emission_pass (max_content_width - 13) in_code lines (Inr [])"

fun finish :: "file_state \<Rightarrow> error + ustring list \<Rightarrow> outcome" where
  "finish f (Inl e) = \<lparr>exit_status = 1, file_after = f, printed = [PostProcessingError e]\<rparr>"
| "finish f (Inr processed) =
     \<lparr>exit_status = 0, file_after = Text (join_lines processed @ [10]), printed = []\<rparr>"

fun benchmark_formatter :: "file_state \<Rightarrow> outcome" where
  \<comment> \<open>the whole script, from the state of \<open>comparison.md\<close>\<close>
  "benchmark_formatter Missing = \<lparr>exit_status = 0, file_after = Missing, printed = [NotFound]\<rparr>"
| "benchmark_formatter Unreadable =
     \<lparr>exit_status = 1, file_after = Unreadable, printed = [PostProcessingError ReadError]\<rparr>"
| "benchmark_formatter (Text t) =
     finish (Text t) (second_pass (splitlines t) (width_pass (splitlines t) False 0))"

definition toggles :: "bool \<Rightarrow> ustring list \<Rightarrow> bool" where
  \<comment> \<open>the value of \<open>in_code\<close> after a loop over the lines, from its value before\<close>
  "toggles in_code lines = (if even (length (filter is_fence lines)) then in_code else \<not> in_code)"

definition second_pass_in_code :: "ustring list \<Rightarrow> nat \<Rightarrow> bool" where
  \<comment> \<open>the value of \<open>in_code\<close> when the second pass reaches the line of index \<open>i\<close>: the
      first pass leaves \<open>toggles False lines\<close>, and the second pass starts from it\<close>
  "second_pass_in_code lines i = toggles (toggles False lines) (take i lines)"

definition content_width :: "ustring \<Rightarrow> int" where
  \<comment> \<open>the width the first pass takes of a line\<close>
  "content_width line = int (length (rstrip (strip_worker_suffix line)))"

fun measured :: "bool \<Rightarrow> ustring list \<Rightarrow> ustring list" where
  \<comment> \<open>the lines the first pass measures: the lines inside the fenced region, from the
      given value of \<open>in_code\<close>, that are not fence, footnote, metadata or header lines\<close>
  "measured in_code [] = []"
| "measured in_code (line # lines) =
     (if is_fence line then measured (\<not> in_code) lines
      else if in_code \<and> \<not> is_footnote line \<and> \<not> is_metadata line \<and> \<not> is_header line
      then line # measured in_code lines
      else measured in_code lines)"

section \<open>The Comparator (benchstat\_simulator.py)\<close>

text \<open>
  The model starts from the two lists \<open>base_data["benches"]\<close> and \<open>pr_data["benches"]\<close>,
  each taken as the list of the pairs \<open>(b["name"], b["value"])\<close> of its records in the
  order of the document, for records whose name is a string; a value is any JSON value.
  The output is the list of the lines printed, and the exception that ended the run if
  one did.  The functions \<open>math.log\<close> and \<open>math.exp\<close>, the built-in \<open>sum\<close> on floats
  and the CPU line are not determined by the script: they are fields of a record that the
  model takes as an argument.  \<open>math.log\<close> is only called on numbers greater than 0.
\<close>

record platform =
  math_log :: "json \<Rightarrow> pyfloat"
  math_exp :: "pyfloat \<Rightarrow> error + pyfloat"
  float_sum :: "pyfloat list \<Rightarrow> pyfloat"
  cpu_info :: ustring

record comparison =
  shown :: "ustring list"
  failure :: "error option"

fun number_of :: "json \<Rightarrow> error + pyfloat" where
  \<comment> \<open>a number as the operand of a float operation or of the format \<open>.2f\<close>\<close>
  "number_of (JFloat x) = Inr x"
| "number_of (JInt n) = as_double n"
| "number_of (JBool b) = as_double (if b then 1 else 0)"
| "number_of other = Inl TypeError"

fun less_than :: "json \<Rightarrow> int \<Rightarrow> error + bool" where
  \<comment> \<open>\<open>val < 1e3\<close>, \<open>val < 1e6\<close>, \<open>val < 1e9\<close>: the literal is the float of the integer
      \<open>k\<close>; an \<open>int\<close> is compared with it exactly\<close>
  "less_than (JFloat x) k = Inr (flt x (float_of_int k))"
| "less_than (JInt n) k = Inr (n < k)"
| "less_than (JBool b) k = Inr ((if b then 1 else 0) < k)"
| "less_than other k = Inl TypeError"

fun fixed_unit :: "error + pyfloat \<Rightarrow> ustring \<Rightarrow> error + ustring" where
  \<comment> \<open>the format \<open>.2f\<close> followed by the unit glyph\<close>
  "fixed_unit (Inl e) glyph = Inl e"
| "fixed_unit (Inr x) glyph = Inr (fmt_2f False x @ glyph)"

fun divided :: "error + pyfloat \<Rightarrow> int \<Rightarrow> error + pyfloat" where
  \<comment> \<open>\<open>val / 1e3\<close>, \<open>val / 1e6\<close>, \<open>val / 1e9\<close>\<close>
  "divided (Inl e) k = Inl e"
| "divided (Inr x) k = Inr (fdiv x (float_of_int k))"

fun format_milli :: "json \<Rightarrow> error + bool \<Rightarrow> error + ustring" where
  \<comment> \<open>from the test \<open>val < 1e9\<close>\<close>
  "format_milli val (Inl e) = Inl e"
| "format_milli val (Inr lt) =
     (if lt then fixed_unit (divided (number_of val) 1000000) (ustr ''m'')
      else fixed_unit (divided (number_of val) 1000000000) (ustr ''s''))"

fun format_micro :: "json \<Rightarrow> error + bool \<Rightarrow> error + ustring" where
  \<comment> \<open>from the test \<open>val < 1e6\<close>\<close>
  "format_micro val (Inl e) = Inl e"
| "format_micro val (Inr lt) =
     (if lt then fixed_unit (divided (number_of val) 1000) [181]
      else format_milli val (less_than val 1000000000))"

fun format_nano :: "json \<Rightarrow> error + bool \<Rightarrow> error + ustring" where
  \<comment> \<open>from the test \<open>val < 1e3\<close>\<close>
  "format_nano val (Inl e) = Inl e"
| "format_nano val (Inr lt) =
     (if lt then fixed_unit (number_of val) (ustr ''n'')
      else format_micro val (less_than val 1000000))"

definition format_val :: "json \<Rightarrow> error + ustring" where
  "format_val val =
     (if val = JNull then Inr (ustr ''N/A'') else format_nano val (less_than val 1000))"

fun equals_zero :: "json \<Rightarrow> bool" where
  \<comment> \<open>\<open>val == 0\<close>\<close>
  "equals_zero (JInt n) = (n = 0)"
| "equals_zero (JFloat x) = feq x fzero"
| "equals_zero (JBool b) = (\<not> b)"
| "equals_zero other = False"

fun annotated :: "error + ustring \<Rightarrow> error + ustring" where
  \<comment> \<open>the placeholder confidence annotation behind the value\<close>
  "annotated (Inl e) = Inl e"
| "annotated (Inr t) = Inr (t @ [32, 177, 32, 8734, 32, 185])"

definition format_cell :: "json \<Rightarrow> error + ustring" where
  "format_cell val = (if equals_zero val then Inr (ustr ''N/A'') else annotated (format_val val))"

definition all_names :: "(ustring \<times> json) list \<Rightarrow> (ustring \<times> json) list \<Rightarrow> ustring list" where
  \<comment> \<open>\<open>sorted(set(base_map.keys()) | set(pr_map.keys()))\<close>\<close>
  "all_names base_benches pr_benches =
     sort (remdups (map fst base_benches @ map fst pr_benches))"

definition comp_str :: "bool \<Rightarrow> bool \<Rightarrow> ustring" where
  \<comment> \<open>from the results of \<open>base_val > 0\<close> and \<open>pr_val > 0\<close>\<close>
  "comp_str base_pos pr_pos =
     (if base_pos \<and> pr_pos then ustr ''~ (p=1.000 n=1) '' @ [178] else [])"

fun row_line ::
  "ustring \<Rightarrow> error + bool \<Rightarrow> error + bool \<Rightarrow> error + ustring \<Rightarrow> error + ustring
     \<Rightarrow> error + ustring" where
  \<comment> \<open>the line printed for a name, given the results of \<open>base_val > 0\<close>, of
      \<open>pr_val > 0\<close> and of the two calls of \<open>format_cell\<close>, in the order of the source\<close>
  "row_line name (Inl e) pr_pos base_str pr_str = Inl e"
| "row_line name (Inr b) (Inl e) base_str pr_str = Inl e"
| "row_line name (Inr b) (Inr p) (Inl e) pr_str = Inl e"
| "row_line name (Inr b) (Inr p) (Inr bs) (Inl e) = Inl e"
| "row_line name (Inr b) (Inr p) (Inr bs) (Inr ps) =
     Inr (ljust 52 name @ ljust 22 bs @ ljust 22 ps @ comp_str b p)"

definition keep_positive :: "json list \<Rightarrow> json \<Rightarrow> json list" where
  \<comment> \<open>\<open>if val > 0: values.append(val)\<close>, where the comparison does not raise\<close>
  "keep_positive vals val = (if gt_zero val = Inr True then vals @ [val] else vals)"

fun row_step ::
  "ustring list \<Rightarrow> json list \<Rightarrow> json list \<Rightarrow> json \<Rightarrow> json \<Rightarrow> error + ustring
     \<Rightarrow> error \<times> ustring list + ustring list \<times> json list \<times> json list" where
  "row_step so_far base_values pr_values base_val pr_val (Inl e) = Inl (e, so_far)"
| "row_step so_far base_values pr_values base_val pr_val (Inr line) =
     Inr (so_far @ [line], keep_positive base_values base_val, keep_positive pr_values pr_val)"

fun row_loop ::
  "(ustring \<times> json) list \<Rightarrow> (ustring \<times> json) list \<Rightarrow> ustring list
     \<Rightarrow> error \<times> ustring list + ustring list \<times> json list \<times> json list
     \<Rightarrow> error \<times> ustring list + ustring list \<times> json list \<times> json list" where
  \<comment> \<open>the loop \<open>for name in all_names\<close>, on the lines printed so far, \<open>base_values\<close>
      and \<open>pr_values\<close>; or the exception that ended it and the lines printed before\<close>
  "row_loop base_benches pr_benches names (Inl failed) = Inl failed"
| "row_loop base_benches pr_benches [] (Inr state) = Inr state"
| "row_loop base_benches pr_benches (name # names) (Inr (so_far, base_values, pr_values)) =
     row_loop base_benches pr_benches names
       (row_step so_far base_values pr_values
          (lookup base_benches name (JInt 0)) (lookup pr_benches name (JInt 0))
          (row_line name
             (gt_zero (lookup base_benches name (JInt 0)))
             (gt_zero (lookup pr_benches name (JInt 0)))
             (format_cell (lookup base_benches name (JInt 0)))
             (format_cell (lookup pr_benches name (JInt 0)))))"

definition calc_geo :: "platform \<Rightarrow> json list \<Rightarrow> error + pyfloat" where
  \<comment> \<open>\<open>math.exp(sum(math.log(x) for x in vals) / len(vals))\<close>, for a list that is not
      empty\<close>
  "calc_geo lib vals =
     math_exp lib (fdiv (float_sum lib (map (math_log lib) vals))
                        (float_of_int (int (length vals))))"

definition preamble :: "ustring \<Rightarrow> ustring list" where
  "preamble cpu =
     [ustr ''Comparison:'', ustr ''```'', ustr ''goos: linux'', ustr ''goarch: amd64'',
      ustr ''pkg: github.com/casbin/node-casbin'', ustr ''cpu: '' @ cpu,
      ljust 52 [] @ [9474, 32] @ ljust 19 (ustr ''base'') @ [32, 9474]
        @ ustr ''           '' @ ljust 19 (ustr ''pr'') @ ustr ''           '' @ [9474],
      ljust 52 [] @ [9474] @ ustr ''       sec/op        '' @ [9474]
        @ ustr ''    sec/op      vs base                '' @ [9474] @ ustr ''   Diff'']"

definition footnotes :: "ustring list" where
  "footnotes =
     [[185] @ ustr '' need >= 6 samples for confidence interval at level 0.95'',
      [178] @ ustr '' all samples are equal'',
      [179] @ ustr '' need >= 4 samples to detect a difference at alpha level 0.05'',
      [8308] @ ustr '' summaries must be >0 to compute geomean'',
      ustr ''```'']"

fun geomean_line :: "error + ustring \<Rightarrow> error + ustring \<Rightarrow> error + ustring" where
  "geomean_line (Inl e) pr_str = Inl e"
| "geomean_line (Inr bs) (Inl e) = Inl e"
| "geomean_line (Inr bs) (Inr ps) = Inr (ljust 52 (ustr ''geomean'') @ ljust 22 bs @ ljust 22 ps)"

fun geomean_row :: "error + pyfloat \<Rightarrow> error + pyfloat \<Rightarrow> error + ustring" where
  \<comment> \<open>from the results of the two calls of \<open>calc_geo\<close>\<close>
  "geomean_row (Inl e) g_pr = Inl e"
| "geomean_row (Inr g_base) (Inl e) = Inl e"
| "geomean_row (Inr g_base) (Inr g_pr) =
     geomean_line (format_val (JFloat g_base)) (format_val (JFloat g_pr))"

fun with_geomean :: "ustring list \<Rightarrow> error + ustring \<Rightarrow> comparison" where
  "with_geomean so_far (Inl e) = \<lparr>shown = so_far, failure = Some e\<rparr>"
| "with_geomean so_far (Inr line) = \<lparr>shown = so_far @ [line] @ footnotes, failure = None\<rparr>"

fun after_rows ::
  "platform \<Rightarrow> error \<times> ustring list + ustring list \<times> json list \<times> json list \<Rightarrow> comparison" where
  \<comment> \<open>the end of \<open>main\<close>, from the result of the loop over the names\<close>
  "after_rows lib (Inl (e, so_far)) = \<lparr>shown = so_far, failure = Some e\<rparr>"
| "after_rows lib (Inr (so_far, base_values, pr_values)) =
     (if base_values \<noteq> [] \<and> pr_values \<noteq> []
      then with_geomean so_far
             (geomean_row (calc_geo lib base_values) (calc_geo lib pr_values))
      else \<lparr>shown = so_far @ footnotes, failure = None\<rparr>)"

definition comparator ::
  "platform \<Rightarrow> (ustring \<times> json) list \<Rightarrow> (ustring \<times> json) list \<Rightarrow> comparison" where
  \<comment> \<open>\<open>main\<close> from the construction of the two maps on\<close>
  "comparator lib base_benches pr_benches =
     after_rows lib
       (row_loop base_benches pr_benches (all_names base_benches pr_benches)
          (Inr (preamble (cpu_info lib), [], [])))"

section \<open>Evaluation of the float operations\<close>

lemmas float_eval =
  round_frac_def round_at_def round_scaled_def pack_def rne_pick_def rne_frac_def
  round_dyadic_def add_aligned_def hundredths_def fsub_def fgt_def fle_def fzero_def pow2_def
  py_truediv_def
  bit_length.simps [of "numeral n" for n] bit_length.simps [of 0] bit_length.simps [of 1]
  bit_length.simps [of "Suc 0"]

lemma float_of_int_1: "float_of_int 1 = Finite False 4503599627370496 (- 52)"
  by (simp add: float_of_int_def float_eval)

lemma float_of_int_10: "float_of_int 10 = Finite False 5629499534213120 (- 49)"
  by (simp add: float_of_int_def float_eval)

lemma float_of_int_neg10: "float_of_int (- 10) = Finite True 5629499534213120 (- 49)"
  by (simp add: float_of_int_def float_eval)

lemma float_of_int_100: "float_of_int 100 = Finite False 7036874417766400 (- 46)"
  by (simp add: float_of_int_def float_eval)

lemma float_of_int_1e9: "float_of_int 1000000000 = Finite False 8388608000000000 (- 23)"
  by (simp add: float_of_int_def float_eval)

lemma nano_eq: "nano = Finite False 4835703278458517 (- 82)"
  by (simp add: nano_def float_eval)

lemma micro_eq: "micro = Finite False 4722366482869645 (- 72)"
  by (simp add: micro_def float_eval)

lemma milli_eq: "milli = Finite False 4611686018427388 (- 62)"
  by (simp add: milli_def float_eval)

lemmas float_consts =
  float_of_int_1 float_of_int_10 float_of_int_neg10 float_of_int_100 float_of_int_1e9
  nano_eq micro_eq milli_eq

lemma round_frac_sign:
  "(\<exists>m e. round_frac s p q = Finite s m e) \<or> round_frac s p q = Infinity s"
  by (simp add: round_frac_def round_at_def round_scaled_def pack_def)

lemma sign_clear_round_frac: "sign_clear (round_frac False p q)"
  using round_frac_sign [of False p q] by (auto simp: sign_clear_def)

lemma sign_clear_round_dyadic: "sign_clear (round_dyadic False m e)"
  by (simp add: round_dyadic_def sign_clear_round_frac)

lemma pow2_pos: "0 < pow2 e"
  by (simp add: pow2_def)

lemma fval_Finite_pos_iff: "0 < fval (Finite s m e) \<longleftrightarrow> \<not> s \<and> m \<noteq> 0"
  using pow2_pos [of e] by (auto simp: zero_less_mult_iff mult_less_0_iff)

lemma fval_Finite_nonneg: "0 \<le> fval (Finite False m e)"
  using pow2_pos [of e] by simp

lemma fval_zero: "fval (Finite s 0 e) = 0"
  by simp

lemma sign_clear_fle: "sign_clear x \<Longrightarrow> fle fzero x"
proof (cases x)
  case (Finite s m e)
  assume "sign_clear x"
  with Finite have "\<not> s" by (simp add: sign_clear_def)
  with Finite fval_Finite_nonneg [of m e] show ?thesis
    by (auto simp: fle_def fzero_def fval_zero simp del: fval.simps)
qed (auto simp: sign_clear_def fle_def fzero_def)

lemma fgt_fzero_cases:
  "fgt x fzero \<Longrightarrow> (\<exists>m e. x = Finite False m e \<and> m \<noteq> 0) \<or> x = Infinity False"
  using fval_Finite_pos_iff
  by (cases x) (auto simp: fgt_def fzero_def fval_zero simp del: fval.simps)

lemma is_zero_fgt: "fgt x fzero \<Longrightarrow> \<not> is_zero x"
  using fgt_fzero_cases [of x] by auto

section \<open>The Normalizer: properties\<close>

lemma bit_length_nonneg: "0 \<le> bit_length n"
  by (induction n rule: bit_length.induct) (subst bit_length.simps, simp)

lemma bit_length_lower: "0 < p \<Longrightarrow> 2 ^ nat (bit_length p - 1) \<le> p"
proof (induction p rule: bit_length.induct)
  case (1 n)
  show ?case
  proof (cases "n div 2 = 0")
    case True
    with 1 have "n = 1" by (cases n) auto
    then show ?thesis by (simp add: bit_length.simps [of "Suc 0"] bit_length.simps [of 0])
  next
    case False
    then have half: "2 ^ nat (bit_length (n div 2) - 1) \<le> n div 2"
      using 1 by simp
    have pos: "0 < bit_length (n div 2)"
      using False bit_length_nonneg [of "n div 2 div 2"] by (subst bit_length.simps) simp
    have "bit_length n = 1 + bit_length (n div 2)"
      using 1(2) by (subst bit_length.simps) simp
    then have "nat (bit_length n - 1) = Suc (nat (bit_length (n div 2) - 1))"
      using pos by simp
    then have "(2::nat) ^ nat (bit_length n - 1) = 2 * 2 ^ nat (bit_length (n div 2) - 1)"
      by simp
    also have "\<dots> \<le> 2 * (n div 2)"
      using half by simp
    also have "\<dots> \<le> n" by simp
    finally show ?thesis .
  qed
qed

lemma is_zero_pack: "is_zero (pack s m e) \<Longrightarrow> m = 0"
  by (auto simp: pack_def split: if_splits)

lemma rne_frac_ge: "p div q \<le> rne_frac p q"
  by (simp add: rne_frac_def rne_pick_def)

lemma round_scaled_nonzero:
  assumes "q \<le> p" and "0 < q"
  shows "\<not> is_zero (round_scaled s p q e)"
proof (cases "9007199254740992 * q \<le> p")
  case True
  then have "4503599627370496 * (2 * q) \<le> p" by simp
  then have "4503599627370496 \<le> p div (2 * q)"
    using assms(2) by (simp add: less_eq_div_iff_mult_less_eq)
  with rne_frac_ge [of p "2 * q"] have "rne_frac p (2 * q) \<noteq> 0" by linarith
  with True show ?thesis
    using is_zero_pack [of s "rne_frac p (2 * q)" "e + 1"] by (auto simp: round_scaled_def)
next
  case False
  from assms have "1 \<le> p div q"
    by (simp add: less_eq_div_iff_mult_less_eq)
  with rne_frac_ge [of p q] have "rne_frac p q \<noteq> 0" by linarith
  with False show ?thesis
    using is_zero_pack [of s "rne_frac p q" e] by (auto simp: round_scaled_def)
qed

lemma float_of_nat_nonzero:
  assumes "0 < p"
  shows "\<not> is_zero (round_frac s p 1)"
proof -
  let ?e = "max (bit_length p - bit_length 1 - 53) (- 1074)"
  have one: "bit_length (Suc 0) = 1"
    by (simp add: bit_length.simps [of "Suc 0"] bit_length.simps [of 0])
  have "\<not> is_zero (round_at s p 1 ?e)"
  proof (cases "?e < 0")
    case True
    have "1 \<le> p * 2 ^ nat (- ?e)"
      using assms by (simp add: Suc_le_eq)
    then show ?thesis
      using True round_scaled_nonzero [of 1 "p * 2 ^ nat (- ?e)" s ?e]
      by (simp add: round_at_def)
  next
    case False
    then have "nat ?e \<le> nat (bit_length p - 1)"
      by (simp add: one)
    then have "(2::nat) ^ nat ?e \<le> 2 ^ nat (bit_length p - 1)"
      by (rule power_increasing) simp
    also have "\<dots> \<le> p"
      using assms by (rule bit_length_lower)
    finally show ?thesis
      using False round_scaled_nonzero [of "2 ^ nat ?e" p s ?e]
      by (simp add: round_at_def)
  qed
  then show ?thesis
    using assms by (simp add: round_frac_def)
qed

lemma float_of_int_nonzero: "0 < n \<Longrightarrow> \<not> is_zero (float_of_int n)"
  using float_of_nat_nonzero [of "nat \<bar>n\<bar>" "n < 0"] by (simp add: float_of_int_def)

lemma float_of_int_sign_clear: "0 \<le> n \<Longrightarrow> sign_clear (float_of_int n)"
  using sign_clear_round_frac [of "nat \<bar>n\<bar>" 1] by (simp add: float_of_int_def)

lemma fdiv_sign_clear:
  assumes "sign_clear y" and "\<not> is_zero y"
  shows "sign_clear (fdiv (Finite False m e) y)"
  using assms sign_clear_round_frac
  by (cases y) (auto simp: sign_clear_def)

lemma value_sign_clear:
  assumes "sign_clear y"
  shows "sign_clear (py_round2 (fmul y (float_of_int 1000000000)))"
proof -
  have round2: "sign_clear (py_round2 z)" if "sign_clear z" for z
    using that sign_clear_round_frac by (cases z) (auto simp: sign_clear_def)
  have times: "sign_clear (fmul z (Finite False 8388608000000000 (- 23)))" if "sign_clear z" for z
    using that sign_clear_round_dyadic by (cases z) (auto simp: sign_clear_def)
  show ?thesis
    using round2 [OF times [OF assms]] by (simp add: float_of_int_1e9)
qed

lemma fgt_sign_clear: "fgt x fzero \<Longrightarrow> sign_clear x"
  using fgt_fzero_cases [of x] by (auto simp: sign_clear_def)

lemma one_over_sign_clear:
  assumes "gt_zero s = Inr True" and "one_over s = Inr y"
  shows "sign_clear y"
proof -
  have one: "sign_clear (float_of_int 1)"
    by (rule float_of_int_sign_clear) simp
  have quot: "sign_clear y" if "sign_clear x" and "py_truediv (float_of_int 1) x = Inr y" for x
    using that fdiv_sign_clear [of x]
    by (auto simp: py_truediv_def float_of_int_1 split: if_splits)
  show ?thesis
  proof (cases s)
    case (JFloat x)
    with assms show ?thesis
      using quot [of x] fgt_sign_clear by simp
  next
    case (JInt n)
    with assms have "0 < n" and "py_truediv (float_of_int 1) (float_of_int n) = Inr y"
      by (auto simp: as_double_def split: if_splits)
    then show ?thesis
      using quot [of "float_of_int n"] float_of_int_sign_clear [of n] by simp
  next
    case (JBool b)
    with assms have "b" and "py_truediv (float_of_int 1) (float_of_int 1) = Inr y"
      by (auto simp: as_double_def split: if_splits)
    then show ?thesis
      using quot [of "float_of_int 1"] one by simp
  qed (use assms in auto)
qed

lemma loop_body_sign_clear:
  assumes "loop_body benches name score unit = Inr benches'"
    and "\<forall>b \<in> set benches. sign_clear (bench_value b)"
  shows "\<forall>b \<in> set benches'. sign_clear (bench_value b)"
proof -
  from assms(1) obtain n s u where parts: "name = Inr n" "score = Inr s" "unit = Inr u"
    by (cases name; cases score; cases unit) auto
  with assms(1) obtain keep where keep: "gt_zero s = Inr keep"
    by (cases "gt_zero s") auto
  show ?thesis
  proof (cases "keep \<and> u = JString (ustr ''ops/s'')")
    case False
    with assms parts keep show ?thesis by auto
  next
    case True
    with assms(1) parts keep obtain y where y: "one_over s = Inr y"
      by (cases "one_over s") auto
    with True keep have "sign_clear y"
      using one_over_sign_clear by simp
    then have "sign_clear (py_round2 (fmul y (float_of_int 1000000000)))"
      by (rule value_sign_clear)
    with assms parts keep True y show ?thesis by auto
  qed
qed

lemma bench_loop_sign_clear:
  assumes "bench_loop data (Inr benches) = Inr out"
    and "\<forall>b \<in> set benches. sign_clear (bench_value b)"
  shows "\<forall>b \<in> set out. sign_clear (bench_value b)"
  using assms
proof (induction data arbitrary: benches)
  case Nil
  then show ?case by simp
next
  case (Cons r data)
  show ?case
  proof (cases "loop_body benches (get_name r) (get_score r) (get_scoreUnit r)")
    case (Inl e)
    with Cons.prems(1) show ?thesis by simp
  next
    case (Inr benches')
    with Cons.prems have "bench_loop data (Inr benches') = Inr out"
      and "\<forall>b \<in> set benches'. sign_clear (bench_value b)"
      using loop_body_sign_clear by simp_all
    then show ?thesis by (rule Cons.IH)
  qed
qed

lemma raw_result_fields:
  assumes "raw_result b"
  shows "get_name b = Inr (sub_benchmark (string_of (raw_benchmark b)))"
    and "get_score b = Inr (raw_score b)"
    and "get_scoreUnit b = Inr (raw_unit b)"
proof -
  from assms obtain members where b: "b = JObject members"
    by (cases b) (auto simp: raw_result_def)
  from assms obtain n where n: "raw_benchmark b = JString n"
    by (cases "raw_benchmark b") (auto simp: raw_result_def)
  from assms obtain metric where metric: "raw_metric b = JObject metric"
    by (cases "raw_metric b") (auto simp: raw_result_def)
  show "get_name b = Inr (sub_benchmark (string_of (raw_benchmark b)))"
    using n by (simp add: b get_name_def raw_benchmark_def)
  show "get_score b = Inr (raw_score b)"
    using metric by (simp add: b get_score_def raw_score_def raw_metric_def)
  show "get_scoreUnit b = Inr (raw_unit b)"
    using metric by (simp add: b get_scoreUnit_def raw_unit_def raw_metric_def)
qed

lemma float_score_positive:
  assumes "has_float_value s"
  shows "gt_zero s = Inr (positive_score s)"
    and "positive_score s \<Longrightarrow> one_over s = Inr (fdiv (float_of_int 1) (float_value s))"
  using assms is_zero_fgt float_of_int_nonzero
  by (cases s; simp add: py_truediv_def as_double_def)+

lemma raw_result_body:
  assumes "raw_result b"
  shows "loop_body benches (get_name b) (get_score b) (get_scoreUnit b)
           = Inr (if spec_included b then benches @ [spec_bench b] else benches)"
proof -
  have "has_float_value (raw_score b)"
    using assms by (simp add: raw_result_def)
  then show ?thesis
    using float_score_positive [of "raw_score b"]
    by (simp add: raw_result_fields [OF assms] spec_included_def spec_bench_def)
qed

lemma bench_loop_raw_results:
  assumes "\<forall>b \<in> set data. raw_result b"
  shows "bench_loop data (Inr benches) = Inr (benches @ map spec_bench (filter spec_included data))"
  using assms by (induction data arbitrary: benches) (simp_all add: raw_result_body)

lemma bit_length_pow2: "bit_length (2 ^ k) = int k + 1"
proof (induction k)
  case 0
  show ?case by (simp add: bit_length.simps [of "Suc 0"] bit_length.simps [of 0])
next
  case (Suc k)
  have "bit_length (2 ^ Suc k) = 1 + bit_length (2 ^ Suc k div 2)"
    by (subst bit_length.simps) simp
  then show ?case using Suc by simp
qed

lemma rne_frac_exact: "0 < q \<Longrightarrow> rne_frac (m * q) q = m"
  by (simp add: rne_frac_def rne_pick_def)

lemma float_of_int_overflow: "float_of_int (2 ^ 1024) = Infinity False"
proof -
  define p :: nat where "p = 2 ^ 1024"
  define q :: nat where "q = 2 ^ 971"
  have "(2::nat) ^ 1024 = 2 ^ (52 + (1 + 971))" by simp
  also have "\<dots> = 2 ^ 52 * (2 ^ 1 * 2 ^ 971)" by (simp only: power_add)
  finally have split: "p = 4503599627370496 * (2 * q)"
    unfolding p_def q_def by simp
  have q: "0 < q"
    unfolding q_def by simp
  have p: "p \<noteq> 0"
    unfolding split using q by simp
  have below: "9007199254740992 * q \<le> p"
    unfolding split by simp
  have nearest: "rne_frac p (2 * q) = 4503599627370496"
    unfolding split using q by (intro rne_frac_exact) simp
  have "bit_length p = 1025"
    unfolding p_def bit_length_pow2 by simp
  then have length: "max (bit_length p - bit_length 1 - 53) (- 1074) = 971"
    by (simp add: bit_length.simps [of "Suc 0"] bit_length.simps [of 0])
  have "round_frac False p 1 = round_at False p 1 971"
    unfolding round_frac_def length using p by simp
  also have "\<dots> = round_scaled False p q 971"
    by (simp add: round_at_def q_def)
  also have "\<dots> = pack False (rne_frac p (2 * q)) 972"
    using below by (simp add: round_scaled_def)
  also have "\<dots> = Infinity False"
    unfolding nearest by (simp add: pack_def)
  finally have "round_frac False p 1 = Infinity False" .
  moreover have "nat \<bar>2 ^ 1024 :: int\<bar> = p"
    unfolding p_def by simp
  moreover have "\<not> (2 ^ 1024 :: int) < 0"
    by simp
  ultimately show ?thesis
    unfolding float_of_int_def by (simp only:)
qed

text \<open>
  Claim C6, as stated, fails.  A JSON integer is a Python \<open>int\<close> of any size, and
  \<open>1.0 / score\<close> converts it to a float first: for the score \<open>2 ^ 1024\<close>, which is
  strictly positive, with the unit \<open>ops/s\<close>, the conversion raises \<open>OverflowError\<close>.
  Nothing catches it, so the record is not included and no output is written.
\<close>

theorem normalizer_score_overflow:
  "bench_loop [JObject [(ustr ''benchmark'', JString (ustr ''BenchmarkFoo'')),
                        (ustr ''primaryMetric'',
                         JObject [(ustr ''score'', JInt (2 ^ 1024)),
                                  (ustr ''scoreUnit'', JString (ustr ''ops/s''))])]] (Inr [])
     = Inl OverflowError
   \<and> gt_zero (JInt (2 ^ 1024)) = Inr True"
proof -
  define n :: int where "n = 2 ^ 1024"
  have overflow: "float_of_int n = Infinity False"
    unfolding n_def by (rule float_of_int_overflow)
  have positive: "0 < n"
    unfolding n_def by (simp only: zero_less_power zero_less_numeral)
  have "bench_loop [JObject [(ustr ''benchmark'', JString (ustr ''BenchmarkFoo'')),
                             (ustr ''primaryMetric'',
                              JObject [(ustr ''score'', JInt n),
                                       (ustr ''scoreUnit'', JString (ustr ''ops/s''))])]] (Inr [])
          = Inl OverflowError
        \<and> gt_zero (JInt n) = Inr True"
    using overflow positive
    by (simp add: get_name_def get_score_def get_scoreUnit_def lookup_def ustr_def as_double_def)
  then show ?thesis
    unfolding n_def .
qed

text \<open>
  Claim C6, amended.  On a list of records of the documented shape whose scores have a
  float value, the loop does not fail; its output holds, in input order, one record for
  each input record whose score is greater than 0 and whose unit is exactly \<open>ops/s\<close>,
  and no other record; the value of that record is \<open>(1.0 / score) * 1e9\<close> rounded to
  two decimals.
\<close>

theorem normalizer_output:
  assumes "\<forall>b \<in> set data. raw_result b"
  shows "bench_loop data (Inr []) = Inr (map spec_bench (filter spec_included data))"
  using bench_loop_raw_results [OF assms, of "[]"] by simp

theorem normalizer_output_witness:
  "bench_loop
     [JObject [(ustr ''benchmark'', JString (ustr ''BenchmarkFoo'')),
               (ustr ''primaryMetric'',
                JObject [(ustr ''score'', JInt 1000),
                         (ustr ''scoreUnit'', JString (ustr ''ops/s''))])],
      JObject [(ustr ''benchmark'', JString (ustr ''BenchmarkBar'')),
               (ustr ''primaryMetric'',
                JObject [(ustr ''score'', JInt 0),
                         (ustr ''scoreUnit'', JString (ustr ''ops/s''))])],
      JObject [(ustr ''benchmark'', JString (ustr ''BenchmarkBaz'')),
               (ustr ''primaryMetric'',
                JObject [(ustr ''score'', JInt 5),
                         (ustr ''scoreUnit'', JString (ustr ''ms''))])],
      JObject []] (Inr [])
   = Inr [\<lparr>bench_name = ustr ''Foo'', bench_value = Finite False 8589934592000000 (- 33),
           bench_unit = ustr ''ns/op'', bench_extra = []\<rparr>]"
proof -
  let ?foo = "JObject [(ustr ''benchmark'', JString (ustr ''BenchmarkFoo'')),
               (ustr ''primaryMetric'',
                JObject [(ustr ''score'', JInt 1000),
                         (ustr ''scoreUnit'', JString (ustr ''ops/s''))])]"
  let ?bar = "JObject [(ustr ''benchmark'', JString (ustr ''BenchmarkBar'')),
               (ustr ''primaryMetric'',
                JObject [(ustr ''score'', JInt 0),
                         (ustr ''scoreUnit'', JString (ustr ''ops/s''))])]"
  let ?baz = "JObject [(ustr ''benchmark'', JString (ustr ''BenchmarkBaz'')),
               (ustr ''primaryMetric'',
                JObject [(ustr ''score'', JInt 5),
                         (ustr ''scoreUnit'', JString (ustr ''ms''))])]"
  have shape: "\<forall>b \<in> set [?foo, ?bar, ?baz, JObject []]. raw_result b"
    by (simp add: raw_result_def raw_benchmark_def raw_metric_def raw_score_def lookup_def
        ustr_def float_of_int_def float_eval)
  have kept: "filter spec_included [?foo, ?bar, ?baz, JObject []] = [?foo]"
    by (simp add: spec_included_def raw_metric_def raw_score_def raw_unit_def lookup_def ustr_def)
  have foo: "spec_bench ?foo
               = \<lparr>bench_name = ustr ''Foo'', bench_value = Finite False 8589934592000000 (- 33),
                  bench_unit = ustr ''ns/op'', bench_extra = []\<rparr>"
    by (simp add: spec_bench_def raw_benchmark_def raw_metric_def raw_score_def lookup_def
        ustr_def sub_benchmark_def float_of_int_def float_eval)
  show ?thesis
    using normalizer_output [OF shape] unfolding kept by (simp only: list.map foo)
qed

lemma normalizer_run_1e12:
  "bench_loop [JObject [(ustr ''benchmark'', JString (ustr ''BenchmarkFoo'')),
                        (ustr ''primaryMetric'',
                         JObject [(ustr ''score'', JFloat (Finite False 8192000000000000 (- 13))),
                                  (ustr ''scoreUnit'', JString (ustr ''ops/s''))])]] (Inr [])
     = Inr [\<lparr>bench_name = ustr ''Foo'', bench_value = Finite False 0 (- 1074),
             bench_unit = ustr ''ns/op'', bench_extra = []\<rparr>]"
  by (simp add: float_eval float_consts ustr_def sub_benchmark_def lookup_def
      get_name_def get_score_def get_scoreUnit_def)

text \<open>
  Claim C7, as stated, fails: a score of \<open>1e12\<close> operations per second, which is the
  float \<open>8192000000000000 * 2 ^ - 13\<close>, passes the filter; \<open>(1.0 / 1e12) * 1e9\<close> is
  about \<open>0.001\<close>, and \<open>round\<close> takes it to \<open>0.0\<close>, which is not greater than 0.
\<close>

theorem normalizer_value_zero:
  "bench_loop [JObject [(ustr ''benchmark'', JString (ustr ''BenchmarkFoo'')),
                        (ustr ''primaryMetric'',
                         JObject [(ustr ''score'', JFloat (Finite False 8192000000000000 (- 13))),
                                  (ustr ''scoreUnit'', JString (ustr ''ops/s''))])]] (Inr [])
     = Inr [\<lparr>bench_name = ustr ''Foo'', bench_value = Finite False 0 (- 1074),
             bench_unit = ustr ''ns/op'', bench_extra = []\<rparr>]
   \<and> \<not> fgt (Finite False 0 (- 1074)) fzero"
  using normalizer_run_1e12 by (simp add: fgt_def fzero_def)

text \<open>
  Claim C7, amended.  Every record in the Normalizer's output has a value that is not
  negative: it is greater than or equal to 0, and it can be 0.0.
\<close>

theorem normalizer_value_nonneg:
  assumes "bench_loop data (Inr []) = Inr out" and "b \<in> set out"
  shows "fle fzero (bench_value b)"
proof -
  have "\<forall>b \<in> set out. sign_clear (bench_value b)"
    using assms(1) by (rule bench_loop_sign_clear) simp
  with assms(2) show ?thesis
    using sign_clear_fle by blast
qed

theorem normalizer_value_nonneg_witness:
  "fle fzero (bench_value \<lparr>bench_name = ustr ''Foo'', bench_value = Finite False 0 (- 1074),
                            bench_unit = ustr ''ns/op'', bench_extra = []\<rparr>)"
  by (rule normalizer_value_nonneg [OF normalizer_run_1e12]) simp

lemma main_benches_list: "main_benches (JArray data) = bench_loop data (Inr [])"
  by (simp add: main_benches_def)

lemmas str_eval =
  ustr_def is_space_def lstrip_def rstrip_def strip_def split_ws_def is_linebreak_def
  splitlines_def ljust_def digit_value_def is_digit_def float_of_decimal_def sign_text_def
  fixed2_def nd_zeros_def sub_benchmark_def
  show_nat.simps [of "numeral n" for n] show_nat.simps [of 0] show_nat.simps [of 1]
  show_nat.simps [of "Suc 0"]

lemmas reflow_eval =
  INDENT_def is_fence_def superscripts_def need_gap_def need_count_def need_eq_def
  match_need_def is_footnote_def is_metadata_def is_header_def digits_end_def suffix_tail_def
  strip_worker_suffix_def get_icon_def clean_superscripts_def before_first_def
  is_unit_letter_def number_suffix_def number_fraction_def number_point_def number_digits_def
  match_number_def scale_by_def parse_token_def parse_val_def separators_def
  extract_two_numbers_def pad_to_def append_aligned_def ci_diff_def match_diff_def
  rstrip_divider_def stripped_header_def new_header_def diff_percent_def data_line_def
  reflow_line_def

lemma match_need_search: "match_need rest \<Longrightarrow> search_need (pre @ rest)"
proof (induction pre)
  case Nil
  then show ?case by (cases rest) (auto simp: match_need_def ustr_def)
next
  case (Cons c pre)
  then show ?case by simp
qed

lemma width_pass_state: "fst (width_pass lines in_code w) = toggles in_code lines"
  by (induction lines arbitrary: in_code w) (auto simp: toggles_def)



lemma emission_pass_outside:
  "\<not> is_fence line \<Longrightarrow>
     emission_pass d False (line # lines) (Inr processed)
       = emission_pass d False lines (Inr (processed @ [line]))"
  by simp


lemma formatter_missing:
  "benchmark_formatter Missing = \<lparr>exit_status = 0, file_after = Missing, printed = [NotFound]\<rparr>"
  by simp

lemma formatter_unreadable:
  "benchmark_formatter Unreadable
     = \<lparr>exit_status = 1, file_after = Unreadable, printed = [PostProcessingError ReadError]\<rparr>"
  by simp


lemma formatter_balanced:
  assumes "even (length (filter is_fence (splitlines t)))"
  shows "second_pass (splitlines t) (width_pass (splitlines t) False 0)
           = emission_pass (snd (width_pass (splitlines t) False 0) - 13) False (splitlines t) (Inr [])"
proof -
  have "fst (width_pass (splitlines t) False 0) = False"
    using assms by (simp add: width_pass_state toggles_def)
  then show ?thesis
    by (cases "width_pass (splitlines t) False 0") simp
qed

text \<open>
  Claim C8.  A missing file is a clean exit (\<open>formatter_missing\<close>), and a failure of
  the pass is printed and gives the exit status 1 (\<open>formatter_unreadable\<close>,
  \<open>formatter_failure\<close>).  But a line outside the fenced region does not always pass
  through unchanged: \<open>in_code\<close> is not set again between the two passes, so on a file
  with one fence line the second pass starts inside the code block, and the line
  \<open>Comparison:\<close> before the fence is written back with the indent.
\<close>

theorem formatter_unclosed_fence:
  "benchmark_formatter (Text (ustr ''Comparison:'' @ [10, 96, 96, 96, 10] @ ustr ''x'' @ [10]))
     = \<lparr>exit_status = 0,
        file_after = Text (INDENT @ ustr ''Comparison:'' @ [10, 96, 96, 96, 10] @ ustr ''x'' @ [10]),
        printed = []\<rparr>"
  by (simp add: str_eval reflow_eval)






lemma micro_seconds_parse:
  "parse_val (ustr ''5'' @ [181, 115]) = Inr (Some (Finite False 5902958103587056 (- 70)))"
  by (simp add: str_eval reflow_eval float_eval float_consts)

subsection \<open>Character classes\<close>

lemma nd_zeros_ranges:
  "\<forall>z \<in> set nd_zeros. (1632 \<le> z \<and> z \<le> 4240) \<or> (6112 \<le> z \<and> z \<le> 7248) \<or> 42528 \<le> z"
  by (simp add: nd_zeros_def)

lemma digit_cases:
  assumes "is_digit c"
  shows "(48 \<le> c \<and> c \<le> 57) \<or> (1632 \<le> c \<and> c < 4250) \<or> (6112 \<le> c \<and> c < 7258) \<or> 42528 \<le> c"
proof (cases "c < 128")
  case True
  with assms show ?thesis
    by (simp add: is_digit_def digit_value_def split: if_splits)
next
  case False
  with assms obtain z where "z \<in> set nd_zeros" "z \<le> c" "c < z + 10"
    by (auto simp: is_digit_def digit_value_def find_None_iff)
  with nd_zeros_ranges show ?thesis
    by fastforce
qed

lemma letter_not_digit: "is_unit_letter c \<Longrightarrow> \<not> is_digit c"
  using digit_cases [of c] by (auto simp: is_unit_letter_def)

lemma space_not_digit: "is_space c \<Longrightarrow> \<not> is_digit c"
  using digit_cases [of c] by (auto simp: is_space_def)

lemma space_not_letter: "is_space c \<Longrightarrow> \<not> is_unit_letter c"
  by (auto simp: is_space_def is_unit_letter_def)

lemma superscript_not_digit: "c \<in> set superscripts \<Longrightarrow> \<not> is_digit c"
  using digit_cases [of c] by (auto simp: superscripts_def)

lemma superscript_not_letter: "c \<in> set superscripts \<Longrightarrow> \<not> is_unit_letter c"
  by (auto simp: superscripts_def is_unit_letter_def)

lemma marks_not_digit: "c \<in> set [37, 40, 43, 45, 46, 61, 177] \<Longrightarrow> \<not> is_digit c"
  using digit_cases [of c] by auto

lemma marks_not_letter: "c \<in> set [37, 40, 43, 45, 46, 61, 177] \<Longrightarrow> \<not> is_unit_letter c"
  by (auto simp: is_unit_letter_def)

lemma marks_not_space: "c \<in> set [37, 40, 43, 45, 46, 61, 177] \<Longrightarrow> \<not> is_space c"
  by (auto simp: is_space_def)

lemma marks_not_superscript: "c \<in> set [37, 40, 43, 45, 46, 61, 177] \<Longrightarrow> c \<notin> set superscripts"
  by (auto simp: superscripts_def)

subsection \<open>The number pattern on a token of the expected shape\<close>

lemma takeWhile_run:
  assumes "list_all P xs" and "ys = [] \<or> \<not> P (hd ys)"
  shows "takeWhile P (xs @ ys) = xs" and "dropWhile P (xs @ ys) = ys"
  using assms by (cases ys; simp add: list_all_iff takeWhile_append2 dropWhile_append2)+

lemma strip_id:
  assumes "t \<noteq> []" and "\<not> is_space (hd t)" and "\<not> is_space (last t)"
  shows "strip t = t"
proof -
  have "dropWhile is_space (rev t) = rev t"
    using assms by (cases "rev t") (auto simp: last_rev [symmetric] simp del: last_rev)
  then have "rstrip t = t"
    by (simp add: rstrip_def)
  moreover have "dropWhile is_space t = t"
    using assms by (cases t) auto
  ultimately show ?thesis
    by (simp add: strip_def lstrip_def)
qed

lemma match_number_shape:
  assumes ip: "list_all is_digit ip" and fp: "list_all is_digit fp"
    and suf: "list_all is_unit_letter suf"
    and some: "ip \<noteq> [] \<or> fp \<noteq> []"
    and sg: "sg \<in> set [[], [43], [45]]"
  shows "match_number (sg @ ip @ (if fp = [] then [] else 46 # fp) @ suf)
           = Some (sg = [45], ip, fp, suf)"
proof -
  let ?pt = "if fp = [] then [] else 46 # fp"
  let ?body = "ip @ ?pt @ suf"
  have hd_suf: "suf = [] \<or> \<not> is_digit (hd suf)"
    using suf letter_not_digit by (cases suf) auto
  have hd_suf_pt: "\<not> starts_with [46] suf"
    using suf marks_not_letter [of 46] by (cases suf) auto
  have hd_rest: "?pt @ suf = [] \<or> \<not> is_digit (hd (?pt @ suf))"
    using hd_suf marks_not_digit [of 46] by auto
  have digits: "takeWhile is_digit ?body = ip" "dropWhile is_digit ?body = ?pt @ suf"
    using takeWhile_run [OF ip hd_rest] by simp_all
  have frac: "takeWhile is_digit (fp @ suf) = fp" "dropWhile is_digit (fp @ suf) = suf"
    using takeWhile_run [OF fp hd_suf] by simp_all
  have point: "number_point neg ip (?pt @ suf) = Some (neg, ip, fp, suf)" for neg
    using some suf frac hd_suf_pt
    by (auto simp: number_point_def number_fraction_def number_suffix_def)
  have body: "number_digits neg ?body = Some (neg, ip, fp, suf)" for neg
    using digits point by (simp add: number_digits_def)
  have no_sign: "\<not> starts_with [45] ?body" "\<not> starts_with [43] ?body"
  proof -
    have "?body \<noteq> []" using some by auto
    moreover have "hd ?body \<noteq> 45 \<and> hd ?body \<noteq> 43"
    proof (cases ip)
      case Nil
      with some show ?thesis by auto
    next
      case (Cons c cs)
      with ip marks_not_digit [of 45] marks_not_digit [of 43] show ?thesis by auto
    qed
    ultimately show "\<not> starts_with [45] ?body" "\<not> starts_with [43] ?body"
      by (cases ?body; auto)+
  qed
  from sg consider "sg = []" | "sg = [43]" | "sg = [45]" by auto
  then show ?thesis
  proof cases
    case 1
    with no_sign body show ?thesis by (simp add: match_number_def)
  next
    case 2
    with body show ?thesis by (simp add: match_number_def)
  next
    case 3
    with body show ?thesis by (simp add: match_number_def)
  qed
qed

lemma shape_chars:
  assumes "list_all is_digit ip" and "list_all is_digit fp" and "list_all is_unit_letter suf"
    and "sg \<in> set [[], [43], [45]]"
    and "c \<in> set (sg @ ip @ (if fp = [] then [] else 46 # fp) @ suf)"
  shows "is_digit c \<or> is_unit_letter c \<or> c \<in> set [43, 45, 46]"
  using assms by (auto simp: list_all_iff split: if_splits)

lemma shape_char_facts:
  assumes "is_digit c \<or> is_unit_letter c \<or> c \<in> set [43, 45, 46]"
  shows "c \<noteq> 37" "c \<noteq> 61" "c \<noteq> 177" "c \<noteq> 40" "\<not> is_space c" "c \<notin> set superscripts"
proof -
  from assms consider "is_digit c" | "is_unit_letter c" | "c \<in> set [43, 45, 46]" by blast
  then have "c \<noteq> 37 \<and> c \<noteq> 61 \<and> c \<noteq> 177 \<and> c \<noteq> 40 \<and> \<not> is_space c \<and> c \<notin> set superscripts"
  proof cases
    case 1
    then show ?thesis
      using marks_not_digit [of c] space_not_digit [of c] superscript_not_digit [of c] by auto
  next
    case 2
    then show ?thesis
      using marks_not_letter [of c] space_not_letter [of c] superscript_not_letter [of c] by auto
  next
    case 3
    then show ?thesis
      using marks_not_space [of c] marks_not_superscript [of c] by auto
  qed
  then show "c \<noteq> 37" "c \<noteq> 61" "c \<noteq> 177" "c \<noteq> 40" "\<not> is_space c" "c \<notin> set superscripts"
    by simp_all
qed

lemma parse_val_clean:
  assumes chars: "\<forall>c \<in> set tok. is_digit c \<or> is_unit_letter c \<or> c \<in> set [43, 45, 46]"
    and "tok \<noteq> []"
  shows "parse_val tok = parse_match (match_number tok)"
proof -
  have facts: "c \<noteq> 37" "c \<noteq> 61" "c \<noteq> 177" "c \<noteq> 40" "\<not> is_space c" "c \<notin> set superscripts"
    if "c \<in> set tok" for c
    using shape_char_facts [of c] chars that by blast+
  have "37 \<notin> set tok" "61 \<notin> set tok"
    using facts by blast+
  moreover have "clean_superscripts tok = tok"
    using facts by (simp add: clean_superscripts_def filter_id_conv)
  moreover have "before_first 177 tok = tok" "before_first 40 tok = tok"
    using facts by (simp_all add: before_first_def takeWhile_eq_all_conv)
  moreover have "strip tok = tok"
    using facts assms(2) by (intro strip_id) simp_all
  ultimately show ?thesis
    using assms(2) by (simp add: parse_val_def parse_token_def)
qed

lemma extract_loop_done: "length found = 2 \<Longrightarrow> extract_loop ts (Inr found) = Inr found"
  by (cases ts) simp_all

lemma extract_loop_skip:
  assumes "37 \<in> set t \<or> 61 \<in> set t"
  shows "extract_loop (t # ts) (Inr found) = extract_loop ts (Inr found)"
  using assms by (cases "length found = 2") (simp_all add: extract_loop_done)

lemma parse_examples:
  "parse_val (ustr ''123.45ms'') = Inr (Some (round_frac False 12345 100000))"
  "parse_val (ustr ''5n'') = Inr (Some (round_frac False 5 1000000000))"
  by (simp_all add: str_eval reflow_eval float_eval float_consts)

text \<open>
  Claim C3.  A token made of an optional sign, digits with an optional decimal point
  and a unit suffix parses to the number times the scale of its suffix: \<open>1e-9\<close> for n
  and ns, \<open>1e-6\<close> for u, us and the micro sign, \<open>1e-3\<close> for m and ms, the number itself
  for s and for no suffix.  \<open>123.45ms\<close> parses to the float \<open>0.12345\<close> and \<open>5n\<close> to
  the float \<open>5e-9\<close>.  A token that contains a percent or an equals sign is not a
  number: \<open>parse_val\<close> returns \<open>None\<close> for it and the extraction loop passes over it.
\<close>

theorem numeric_token_scale:
  assumes "list_all is_digit ip" and "list_all is_digit fp" and "list_all is_unit_letter suf"
    and "ip \<noteq> [] \<or> fp \<noteq> []"
    and "sg \<in> set [[], [43], [45]]"
  shows "parse_val (sg @ ip @ (if fp = [] then [] else 46 # fp) @ suf)
           = (if map (\<lambda>c. if c = 181 then 117 else c) suf \<in> set [ustr ''n'', ustr ''ns'']
              then Inr (Some (fmul (float_of_decimal (sg = [45]) ip fp) nano))
              else if map (\<lambda>c. if c = 181 then 117 else c) suf \<in> set [ustr ''u'', ustr ''us'']
              then Inr (Some (fmul (float_of_decimal (sg = [45]) ip fp) micro))
              else if map (\<lambda>c. if c = 181 then 117 else c) suf \<in> set [ustr ''m'', ustr ''ms'']
              then Inr (Some (fmul (float_of_decimal (sg = [45]) ip fp) milli))
              else if map (\<lambda>c. if c = 181 then 117 else c) suf \<in> set [ustr ''s'', []]
              then Inr (Some (float_of_decimal (sg = [45]) ip fp))
              else Inl (ValueError (ustr ''Unexpected unit: ''
                                    @ map (\<lambda>c. if c = 181 then 117 else c) suf)))
       \<and> parse_val (ustr ''123.45ms'') = Inr (Some (round_frac False 12345 100000))
       \<and> parse_val (ustr ''5n'') = Inr (Some (round_frac False 5 1000000000))
       \<and> (37 \<in> set t \<or> 61 \<in> set t \<longrightarrow>
            parse_val t = Inr None
            \<and> extract_loop (t # ts) (Inr found) = extract_loop ts (Inr found))"
proof -
  let ?tok = "sg @ ip @ (if fp = [] then [] else 46 # fp) @ suf"
  have "?tok \<noteq> []"
    using assms(4) by auto
  moreover have "\<forall>c \<in> set ?tok. is_digit c \<or> is_unit_letter c \<or> c \<in> set [43, 45, 46]"
    using shape_chars [OF assms(1-3,5)] by blast
  ultimately have "parse_val ?tok = parse_match (match_number ?tok)"
    using parse_val_clean by blast
  also have "\<dots> = scale_by (map (\<lambda>c. if c = 181 then 117 else c) suf)
                      (float_of_decimal (sg = [45]) ip fp)"
    using match_number_shape [OF assms] by simp
  finally have general: "parse_val ?tok = scale_by (map (\<lambda>c. if c = 181 then 117 else c) suf)
                      (float_of_decimal (sg = [45]) ip fp)" .
  have skipped: "37 \<in> set t \<or> 61 \<in> set t \<longrightarrow>
            parse_val t = Inr None
            \<and> extract_loop (t # ts) (Inr found) = extract_loop ts (Inr found)"
    using extract_loop_skip [of t ts found] by (auto simp: parse_val_def)
  show ?thesis
    using general parse_examples skipped by (simp add: scale_by_def)
qed

theorem numeric_token_scale_witness:
  "parse_val (ustr ''-12.5'' @ [181, 115])
     = Inr (Some (fmul (float_of_decimal True (ustr ''12'') (ustr ''5'')) micro))
   \<and> parse_val (ustr ''50%'') = Inr None
   \<and> parse_val (ustr ''p=0.05'') = Inr None
   \<and> extract_loop [ustr ''50%'', ustr ''p=0.05''] (Inr []) = Inr []"
proof -
  have d1: "list_all is_digit (ustr ''12'')" and d2: "list_all is_digit (ustr ''5'')"
    and l: "list_all is_unit_letter [181, 115]"
    by (simp_all add: ustr_def is_digit_def digit_value_def is_unit_letter_def)
  have n: "ustr ''12'' \<noteq> [] \<or> ustr ''5'' \<noteq> []" and s: "[45] \<in> set [[], [43], [45]]"
    by (simp_all add: ustr_def)
  have tok: "[45] @ ustr ''12'' @ (if ustr ''5'' = [] then [] else 46 # ustr ''5'') @ [181, 115]
               = ustr ''-12.5'' @ [181, 115]"
    by (simp add: ustr_def)
  have pct: "37 \<in> set (ustr ''50%'') \<or> 61 \<in> set (ustr ''50%'')"
    and eq: "37 \<in> set (ustr ''p=0.05'') \<or> 61 \<in> set (ustr ''p=0.05'')"
    by (simp_all add: ustr_def)
  from numeric_token_scale [OF d1 d2 l n s, of "ustr ''50%''" "[ustr ''p=0.05'']" "[]"]
    numeric_token_scale [OF d1 d2 l n s, of "ustr ''p=0.05''" "[]" "[]"]
  show ?thesis
    unfolding tok using pct eq by (simp add: ustr_def)
qed

lemma fval_ten: "fval (float_of_int 10) = 10" "fval (float_of_int (- 10)) = - 10"
  by (simp_all add: float_consts pow2_def)

lemma below_not_above:
  "flt x (float_of_int (- 10)) \<Longrightarrow> \<not> fgt x (float_of_int 10)"
proof (cases x)
  case (Finite s m e)
  assume "flt x (float_of_int (- 10))"
  with Finite have "fval x < - 10"
    using fval_ten by (simp add: float_consts)
  with Finite show ?thesis
    using fval_ten by (simp add: fgt_def float_consts)
qed (simp_all add: float_consts fgt_def)

lemma get_icon_cases:
  "(get_icon x = [128012] \<longleftrightarrow> fgt x (float_of_int 10))
   \<and> (get_icon x = [128640] \<longleftrightarrow> flt x (float_of_int (- 10)))
   \<and> (get_icon x = [10145, 65039] \<longleftrightarrow>
         \<not> fgt x (float_of_int 10) \<and> \<not> flt x (float_of_int (- 10)))"
  using below_not_above [of x] by (auto simp: get_icon_def)

lemma is_zero_feq: "is_zero x \<Longrightarrow> feq x fzero"
  by (cases x) (simp_all add: fzero_def)

lemma extract_two_nonempty: "extract_two_numbers tokens = Inr [a, b] \<Longrightarrow> tokens \<noteq> []"
  by (auto simp: extract_two_numbers_def)

lemma data_line_diff:
  assumes "extract_two_numbers (split_ws line) = Inr [base, cand]" and "\<not> feq base fzero"
  shows "data_line d line
           = Inr (append_aligned d (rstrip line)
                    (fmt_2f True (fmul (fdiv (fsub cand base) base) (float_of_int 100)) @ [37, 32]
                     @ get_icon (fmul (fdiv (fsub cand base) base) (float_of_int 100))))"
  using assms extract_two_nonempty [OF assms(1)] is_zero_feq [of base]
  by (auto simp: data_line_def diff_percent_def py_truediv_def)

lemma ten_percent_value:
  "fmul (fdiv (fsub (round_frac False 11 10000) milli) milli) (float_of_int 100)
     = Finite False 5629499534213123 (- 49)"
  by (simp add: float_eval float_consts)
lemma fifteen_percent_value:
  "fmul (fdiv (fsub (round_frac False 85 100000) milli) milli) (float_of_int 100)
     = Finite True 8444249301319684 (- 49)"
  by (simp add: float_eval float_consts)
lemma ten_percent_text:
  "fmt_2f True (Finite False 5629499534213123 (- 49)) = ustr ''+10.00''"
  "get_icon (Finite False 5629499534213123 (- 49)) = [128012]"
  by (simp_all add: str_eval get_icon_def float_eval float_consts)
lemma fifteen_percent_text:
  "fmt_2f True (Finite True 8444249301319684 (- 49)) = ustr ''-15.00''"
  "get_icon (Finite True 8444249301319684 (- 49)) = [128640]"
  by (simp_all add: str_eval get_icon_def float_eval float_consts)

text \<open>
  Claim C2, as stated, fails in its first example.  With the floats \<open>1e-3\<close> and
  \<open>1.1e-3\<close> the expression \<open>(second - first) / first * 100\<close> is
  \<open>5629499534213123 * 2 ^ - 49\<close>, about \<open>10.000000000000005\<close>: it prints as
  \<open>+10.00\<close>, it is greater than 10, and the glyph is the snail, not the arrow.
\<close>

theorem ten_percent_is_slower:
  "fmul (fdiv (fsub (round_frac False 11 10000) milli) milli) (float_of_int 100)
     = Finite False 5629499534213123 (- 49)
   \<and> fmt_2f True (Finite False 5629499534213123 (- 49)) = ustr ''+10.00''
   \<and> fgt (Finite False 5629499534213123 (- 49)) (float_of_int 10)
   \<and> get_icon (Finite False 5629499534213123 (- 49)) = [128012]
   \<and> get_icon (Finite False 5629499534213123 (- 49)) \<noteq> [10145, 65039]"
  using ten_percent_value ten_percent_text get_icon_cases [of "Finite False 5629499534213123 (- 49)"]
  by simp

text \<open>
  Claim C2, amended.  For a data line with exactly two magnitudes of which the first is
  not zero, the line is written with the column \<open>{diff:+.2f}% glyph\<close>, where
  \<open>diff = (second - first) / first * 100\<close> in float arithmetic; the glyph is the
  snail exactly when \<open>diff > 10\<close>, the rocket exactly when \<open>diff < -10\<close>, the arrow
  otherwise.  The comparison is made on the float, not on the two printed decimals:
  for the floats \<open>1e-3\<close> and \<open>1.1e-3\<close> the column is \<open>+10.00%\<close> with the snail, for
  \<open>1e-3\<close> and \<open>0.85e-3\<close> it is \<open>-15.00%\<close> with the rocket.
\<close>

theorem diff_percent_and_glyph:
  assumes "\<not> is_footnote line" and "\<not> is_header line" and "\<not> is_metadata line"
    and "extract_two_numbers (split_ws (strip_worker_suffix line)) = Inr [base, cand]"
    and "\<not> feq base fzero"
    and "dv = fmul (fdiv (fsub cand base) base) (float_of_int 100)"
  shows "reflow_line d line
           = Inr (append_aligned d (rstrip (strip_worker_suffix line))
                    (fmt_2f True dv @ [37, 32] @ get_icon dv))
       \<and> (get_icon dv = [128012] \<longleftrightarrow> fgt dv (float_of_int 10))
       \<and> (get_icon dv = [128640] \<longleftrightarrow> flt dv (float_of_int (- 10)))
       \<and> (get_icon dv = [10145, 65039] \<longleftrightarrow>
             \<not> fgt dv (float_of_int 10) \<and> \<not> flt dv (float_of_int (- 10)))
       \<and> (base = milli \<and> cand = round_frac False 11 10000 \<longrightarrow>
             fmt_2f True dv = ustr ''+10.00'' \<and> get_icon dv = [128012])
       \<and> (base = milli \<and> cand = round_frac False 85 100000 \<longrightarrow>
             fmt_2f True dv = ustr ''-15.00'' \<and> get_icon dv = [128640])"
proof -
  have "reflow_line d line = data_line d (strip_worker_suffix line)"
    using assms(1-3) by (simp add: reflow_line_def)
  then have "reflow_line d line
           = Inr (append_aligned d (rstrip (strip_worker_suffix line))
                    (fmt_2f True dv @ [37, 32] @ get_icon dv))"
    using data_line_diff [OF assms(4,5)] assms(6) by simp
  moreover have "base = milli \<and> cand = round_frac False 11 10000 \<longrightarrow>
             fmt_2f True dv = ustr ''+10.00'' \<and> get_icon dv = [128012]"
    using assms(6) ten_percent_value ten_percent_text by simp
  moreover have "base = milli \<and> cand = round_frac False 85 100000 \<longrightarrow>
             fmt_2f True dv = ustr ''-15.00'' \<and> get_icon dv = [128640]"
    using assms(6) fifteen_percent_value fifteen_percent_text by simp
  ultimately show ?thesis
    using get_icon_cases [of dv] by blast
qed

lemma ten_percent_row:
  "extract_two_numbers (split_ws (strip_worker_suffix (ustr ''Foo 1.00m 1.10m'')))
     = Inr [milli, round_frac False 11 10000]"
  by (simp add: str_eval reflow_eval float_eval float_consts)

theorem diff_percent_and_glyph_witness:
  "reflow_line 0 (ustr ''Foo 1.00m 1.10m'')
     = Inr (INDENT @ ustr ''Foo 1.00m 1.10m'' @ [32, 32] @ ustr ''+10.00% '' @ [128012])"
proof -
  have c: "\<not> is_footnote (ustr ''Foo 1.00m 1.10m'')" "\<not> is_header (ustr ''Foo 1.00m 1.10m'')"
    "\<not> is_metadata (ustr ''Foo 1.00m 1.10m'')"
    by (simp_all add: str_eval reflow_eval)
  have z: "\<not> feq milli fzero"
    by (simp add: float_consts fzero_def pow2_def)
  have left: "rstrip (strip_worker_suffix (ustr ''Foo 1.00m 1.10m'')) = ustr ''Foo 1.00m 1.10m''"
    by (simp add: str_eval reflow_eval)
  let ?dv = "fmul (fdiv (fsub (round_frac False 11 10000) milli) milli) (float_of_int 100)"
  note fact = diff_percent_and_glyph [OF c ten_percent_row z refl, of 0]
  from fact have row: "reflow_line 0 (ustr ''Foo 1.00m 1.10m'')
      = Inr (append_aligned 0 (rstrip (strip_worker_suffix (ustr ''Foo 1.00m 1.10m'')))
               (fmt_2f True ?dv @ [37, 32] @ get_icon ?dv))"
    by (rule conjunct1)
  from fact have shown: "fmt_2f True ?dv = ustr ''+10.00''" "get_icon ?dv = [128012]"
    by blast+
  show ?thesis
    unfolding row shown left by (simp add: append_aligned_def pad_to_def ustr_def)
qed

section \<open>TableReflow: the lines the second pass rewrites\<close>

lemma toggles_Cons:
  "toggles in_code (l # ls) = toggles (if is_fence l then \<not> in_code else in_code) ls"
  by (simp add: toggles_def)

lemma toggles_Nil: "toggles in_code [] = in_code"
  by (simp add: toggles_def)

lemma second_pass_in_code_balanced:
  assumes "even (length (filter is_fence lines))"
  shows "second_pass_in_code lines i = toggles False (take i lines)"
  using assms by (simp add: second_pass_in_code_def toggles_def)

lemma emission_pass_lines:
  assumes "emission_pass d in_code lines (Inr acc) = Inr out"
  shows "\<exists>res. out = acc @ res \<and> length res = length lines
           \<and> (\<forall>i < length lines.
                 if is_fence (lines ! i) \<or> \<not> toggles in_code (take i lines)
                 then res ! i = lines ! i
                 else reflow_line d (lines ! i) = Inr (res ! i))"
  using assms
proof (induction lines arbitrary: in_code acc)
  case Nil
  then show ?case by simp
next
  case (Cons l ls)
  let ?next = "if is_fence l then \<not> in_code else in_code"
  obtain x where step: "emission_pass d in_code (l # ls) (Inr acc) = emission_pass d ?next ls (Inr (acc @ [x]))"
    and x: "if is_fence l \<or> \<not> in_code then x = l else reflow_line d l = Inr x"
  proof (cases "is_fence l \<or> \<not> in_code")
    case True
    then show ?thesis using that [of l] by auto
  next
    case False
    with Cons.prems obtain y where "reflow_line d l = Inr y"
      by (cases "reflow_line d l") auto
    with False show ?thesis using that [of y] by auto
  qed
  from Cons.prems step have "emission_pass d ?next ls (Inr (acc @ [x])) = Inr out"
    by simp
  from Cons.IH [OF this] obtain res where res: "out = (acc @ [x]) @ res" "length res = length ls"
    and rest: "\<forall>i < length ls.
                 if is_fence (ls ! i) \<or> \<not> toggles ?next (take i ls)
                 then res ! i = ls ! i
                 else reflow_line d (ls ! i) = Inr (res ! i)"
    by blast
  have "\<forall>i < length (l # ls).
          if is_fence ((l # ls) ! i) \<or> \<not> toggles in_code (take i (l # ls))
          then (x # res) ! i = (l # ls) ! i
          else reflow_line d ((l # ls) ! i) = Inr ((x # res) ! i)"
  proof (intro allI impI)
    fix i assume "i < length (l # ls)"
    show "if is_fence ((l # ls) ! i) \<or> \<not> toggles in_code (take i (l # ls))
          then (x # res) ! i = (l # ls) ! i
          else reflow_line d ((l # ls) ! i) = Inr ((x # res) ! i)"
    proof (cases i)
      case 0
      with x show ?thesis by (simp add: toggles_Nil)
    next
      case (Suc j)
      with \<open>i < length (l # ls)\<close> rest show ?thesis
        by (simp add: toggles_Cons)
    qed
  qed
  with res show ?case
    by (intro exI [of _ "x # res"]) simp
qed

lemma second_pass_lines:
  assumes "second_pass lines (width_pass lines False 0) = Inr out"
  shows "length out = length lines"
    and "i < length lines \<Longrightarrow> \<not> is_fence (lines ! i) \<Longrightarrow> second_pass_in_code lines i \<Longrightarrow>
           reflow_line (snd (width_pass lines False 0) - 13) (lines ! i) = Inr (out ! i)"
    and "i < length lines \<Longrightarrow> is_fence (lines ! i) \<or> \<not> second_pass_in_code lines i \<Longrightarrow>
           out ! i = lines ! i"
proof -
  have "emission_pass (snd (width_pass lines False 0) - 13) (toggles False lines) lines (Inr []) = Inr out"
    using assms width_pass_state [of lines False 0]
    by (cases "width_pass lines False 0") simp
  from emission_pass_lines [OF this]
  have len: "length out = length lines"
    and each: "\<forall>i < length lines.
                 if is_fence (lines ! i) \<or> \<not> toggles (toggles False lines) (take i lines)
                 then out ! i = lines ! i
                 else reflow_line (snd (width_pass lines False 0) - 13) (lines ! i) = Inr (out ! i)"
    by auto
  show "length out = length lines" by (rule len)
  show "i < length lines \<Longrightarrow> \<not> is_fence (lines ! i) \<Longrightarrow> second_pass_in_code lines i \<Longrightarrow>
           reflow_line (snd (width_pass lines False 0) - 13) (lines ! i) = Inr (out ! i)"
    using each by (auto simp: second_pass_in_code_def)
  show "i < length lines \<Longrightarrow> is_fence (lines ! i) \<or> \<not> second_pass_in_code lines i \<Longrightarrow>
           out ! i = lines ! i"
    using each by (auto simp: second_pass_in_code_def)
qed



lemma measured_no_footnote: "is_footnote line \<Longrightarrow> line \<notin> set (measured in_code lines)"
  by (induction lines arbitrary: in_code) auto

lemma footnote_line_indented:
  assumes "second_pass lines (width_pass lines False 0) = Inr out"
    and "i < length lines" and "\<not> is_fence (lines ! i)" and "second_pass_in_code lines i"
    and "search_need (lines ! i)"
  shows "out ! i = INDENT @ lines ! i"
  using second_pass_lines(2) [OF assms(1-4)] assms(5)
  by (simp add: reflow_line_def is_footnote_def)

text \<open>
  Claim C9 holds for a line that the second pass treats as inside the code block
  (\<open>footnote_line_indented\<close>, \<open>measured_no_footnote\<close>), which every line inside the
  fenced region of a file with an even number of fence lines is
  (\<open>second_pass_in_code_balanced\<close>).  It fails on a file with one fence line: the line
  after the fence contains \<open>need >= 6 samples\<close>, the first pass skips it as a footnote,
  but the second pass, which starts with the value of \<open>in_code\<close> that the first pass
  left, takes the fence as the end of the code block and writes the line back without the
  indent.
\<close>

theorem footnote_unclosed_fence:
  "search_need (ustr ''Foo 1.00m 5x need >= 6 samples'')
   \<and> benchmark_formatter
       (Text ([96, 96, 96, 10] @ ustr ''Foo 1.00m 5x need >= 6 samples'' @ [10]))
     = \<lparr>exit_status = 0,
        file_after = Text ([96, 96, 96, 10] @ ustr ''Foo 1.00m 5x need >= 6 samples'' @ [10]),
        printed = []\<rparr>"
  by (simp add: str_eval reflow_eval)



section \<open>TableReflow: the diff column\<close>

lemma width_pass_max:
  "snd (width_pass lines in_code w) = Max (set (w # map content_width (measured in_code lines)))"
proof (induction lines arbitrary: in_code w)
  case Nil
  show ?case by simp
next
  case (Cons line lines)
  have step: "Max (set (max w c # cs)) = Max (set (w # c # cs))" for c :: int and cs
    by (cases "set cs = {}") (simp_all add: max.assoc max.commute max.left_commute)
  show ?case
  proof (cases "is_fence line \<or> \<not> in_code \<or> is_footnote line \<or> is_metadata line \<or> is_header line")
    case True
    then show ?thesis using Cons.IH by auto
  next
    case False
    then have "snd (width_pass (line # lines) in_code w)
                 = snd (width_pass lines in_code (max w (content_width line)))"
      by (simp add: content_width_def max_def)
    also have "\<dots> = Max (set (max w (content_width line) # map content_width (measured in_code lines)))"
      by (rule Cons.IH)
    also have "\<dots> = Max (set (w # content_width line # map content_width (measured in_code lines)))"
      by (rule step)
    finally have "snd (width_pass (line # lines) in_code w)
        = Max (set (w # content_width line # map content_width (measured in_code lines)))" .
    moreover have "measured in_code (line # lines) = line # measured in_code lines"
      using False by simp
    ultimately show ?thesis
      by (simp only: list.map)
  qed
qed

lemma measured_width_le:
  assumes "line \<in> set (measured in_code lines)"
  shows "content_width line \<le> snd (width_pass lines in_code w)"
  unfolding width_pass_max using assms by (intro Max_ge) auto

lemma length_pad_to:
  "length (pad_to d left) = (if int (length left) < d then nat d else length left + 2)"
  by (auto simp: pad_to_def)

lemma length_INDENT: "length INDENT = 8"
  by (simp add: INDENT_def)

lemma header_line:
  assumes "is_header line" and "\<not> is_footnote line"
  shows "reflow_line d line
           = Inr (INDENT @ pad_to d (stripped_header line)
                  @ (if contains (ustr ''vs base'') line then ustr ''Diff'' else []) @ [9474])"
  using assms by (simp add: reflow_line_def new_header_def)

lemma sixty_wide_run:
  "second_pass
     [[96, 96, 96],
      ustr ''Alpha                                        1.00m     2.00m'',
      ustr ''Beta 1.00m 3.00m'',
      [96, 96, 96]]
     (width_pass
        [[96, 96, 96],
         ustr ''Alpha                                        1.00m     2.00m'',
         ustr ''Beta 1.00m 3.00m'',
         [96, 96, 96]] False 0)
   = Inr [[96, 96, 96],
          INDENT @ ustr ''Alpha                                        1.00m     2.00m''
            @ [32, 32] @ ustr ''+100.00% '' @ [128012],
          INDENT @ ustr ''Beta 1.00m 3.00m'' @ replicate 31 32 @ ustr ''+200.00% '' @ [128012],
          [96, 96, 96]]"
  by (simp add: str_eval reflow_eval float_eval float_consts)

text \<open>
  Claim C1, as stated, fails.  In the table of the two rows below the longest line is 60
  characters wide, so the offset \<open>diff_col_start\<close> is 47.  Every output line starts with
  the indent of 8 spaces, and only a left part shorter than 47 characters is padded to the
  offset; a longer one, as that of the longest row always is, is followed by two spaces.
  The diff value of the first row begins at offset 70 and that of the second at offset
  55; neither begins at offset 47.
\<close>

theorem sixty_wide_table:
  "content_width (ustr ''Alpha                                        1.00m     2.00m'') = 60
   \<and> content_width (ustr ''Beta 1.00m 3.00m'') = 16
   \<and> benchmark_formatter
       (Text ([96, 96, 96, 10] @ ustr ''Alpha                                        1.00m     2.00m'' @ [10] @ ustr ''Beta 1.00m 3.00m'' @ [10, 96, 96, 96, 10]))
     = \<lparr>exit_status = 0,
        file_after =
          Text ([96, 96, 96, 10]
                @ (INDENT @ ustr ''Alpha                                        1.00m     2.00m'' @ [32, 32]) @ ustr ''+100.00% '' @ [128012, 10]
                @ (INDENT @ ustr ''Beta 1.00m 3.00m'' @ replicate 31 32) @ ustr ''+200.00% '' @ [128012, 10]
                @ [96, 96, 96, 10]),
        printed = []\<rparr>
   \<and> length (INDENT @ ustr ''Alpha                                        1.00m     2.00m'' @ [32, 32]) = 70
   \<and> length (INDENT @ ustr ''Beta 1.00m 3.00m'' @ replicate 31 32) = 55"
proof -
  have lines: "splitlines ([96, 96, 96, 10] @ ustr ''Alpha                                        1.00m     2.00m'' @ [10] @ ustr ''Beta 1.00m 3.00m'' @ [10, 96, 96, 96, 10])
                 = [[96, 96, 96], ustr ''Alpha                                        1.00m     2.00m'', ustr ''Beta 1.00m 3.00m'', [96, 96, 96]]"
    by (simp add: str_eval)
  have widths: "content_width (ustr ''Alpha                                        1.00m     2.00m'') = 60" "content_width (ustr ''Beta 1.00m 3.00m'') = 16"
    by (simp_all add: content_width_def str_eval reflow_eval)
  have offsets: "length (INDENT @ ustr ''Alpha                                        1.00m     2.00m'' @ [32, 32]) = 70"
    "length (INDENT @ ustr ''Beta 1.00m 3.00m'' @ replicate 31 32) = 55"
    by (simp_all add: INDENT_def ustr_def)
  have "benchmark_formatter
       (Text ([96, 96, 96, 10] @ ustr ''Alpha                                        1.00m     2.00m'' @ [10] @ ustr ''Beta 1.00m 3.00m'' @ [10, 96, 96, 96, 10]))
     = \<lparr>exit_status = 0,
        file_after =
          Text ([96, 96, 96, 10]
                @ (INDENT @ ustr ''Alpha                                        1.00m     2.00m'' @ [32, 32]) @ ustr ''+100.00% '' @ [128012, 10]
                @ (INDENT @ ustr ''Beta 1.00m 3.00m'' @ replicate 31 32) @ ustr ''+200.00% '' @ [128012, 10]
                @ [96, 96, 96, 10]),
        printed = []\<rparr>"
    unfolding benchmark_formatter.simps lines sixty_wide_run
    by simp
  with widths offsets show ?thesis
    by (simp only: simp_thms)
qed

text \<open>
  Claim C1, amended.  The offset is \<open>W - 13\<close>, where \<open>W\<close> is the greatest width of a
  measured line (0 when there is none), and the same offset is used for the header and
  for every data line.  A data line with two magnitudes, the first not zero, is written
  as the indent, the left part, padding, and the diff value: the left part is padded with
  spaces to \<open>W - 13\<close> characters when it is shorter than that, and followed by two spaces
  when it is not.  So the diff value begins at offset \<open>8 + (W - 13)\<close> in the first case
  and at offset \<open>8 + length + 2\<close> in the second, which is the case of the longest line.  A
  header line is written as the indent and its stripped text, padded in the same way.
\<close>

theorem diff_column_offset:
  assumes "second_pass lines (width_pass lines False 0) = Inr out"
    and "W = snd (width_pass lines False 0)"
    and "i < length lines" and "second_pass_in_code lines i"
    and "\<not> is_fence (lines ! i)" and "\<not> is_footnote (lines ! i)"
    and "\<not> is_header (lines ! i)" and "\<not> is_metadata (lines ! i)"
    and "extract_two_numbers (split_ws (strip_worker_suffix (lines ! i))) = Inr [base, cand]"
    and "\<not> feq base fzero"
    and "left = rstrip (strip_worker_suffix (lines ! i))"
    and "dv = fmul (fdiv (fsub cand base) base) (float_of_int 100)"
  shows "W = Max (set (0 # map content_width (measured False lines)))
       \<and> out ! i = (INDENT @ pad_to (W - 13) left) @ fmt_2f True dv @ [37, 32] @ get_icon dv
       \<and> int (length (INDENT @ pad_to (W - 13) left))
           = (if int (length left) < W - 13 then 8 + (W - 13) else 8 + int (length left) + 2)
       \<and> (\<forall>j. j < length lines \<and> second_pass_in_code lines j \<and> \<not> is_fence (lines ! j)
                \<and> \<not> is_footnote (lines ! j) \<and> is_header (lines ! j) \<longrightarrow>
              out ! j = INDENT @ pad_to (W - 13) (stripped_header (lines ! j))
                        @ (if contains (ustr ''vs base'') (lines ! j) then ustr ''Diff'' else [])
                        @ [9474])"
proof -
  have width: "W = Max (set (0 # map content_width (measured False lines)))"
    unfolding assms(2) by (rule width_pass_max)
  have "reflow_line (W - 13) (lines ! i) = Inr (out ! i)"
    unfolding assms(2) using assms(1,3,5,4) by (rule second_pass_lines(2))
  moreover have "reflow_line (W - 13) (lines ! i) = data_line (W - 13) (strip_worker_suffix (lines ! i))"
    using assms(6-8) by (simp add: reflow_line_def)
  ultimately have row: "out ! i = (INDENT @ pad_to (W - 13) left) @ fmt_2f True dv @ [37, 32] @ get_icon dv"
    using data_line_diff [OF assms(9,10), of "W - 13"] assms(11,12)
    by (simp add: append_aligned_def)
  have offset: "int (length (INDENT @ pad_to (W - 13) left))
           = (if int (length left) < W - 13 then 8 + (W - 13) else 8 + int (length left) + 2)"
    by (simp add: length_pad_to length_INDENT)
  have header: "out ! j = INDENT @ pad_to (W - 13) (stripped_header (lines ! j))
                        @ (if contains (ustr ''vs base'') (lines ! j) then ustr ''Diff'' else [])
                        @ [9474]"
    if "j < length lines" and "second_pass_in_code lines j" and "\<not> is_fence (lines ! j)"
      and "\<not> is_footnote (lines ! j)" and "is_header (lines ! j)" for j
  proof -
    have "reflow_line (W - 13) (lines ! j) = Inr (out ! j)"
      unfolding assms(2) using assms(1) that(1,3,2) by (rule second_pass_lines(2))
    then show ?thesis
      using header_line [OF that(5,4), of "W - 13"] by simp
  qed
  from width row offset header show ?thesis
    by blast
qed

theorem diff_column_offset_witness:
  "(60::int) = Max (set (0 # map content_width
       (measured False [[96, 96, 96], ustr ''Alpha                                        1.00m     2.00m'', ustr ''Beta 1.00m 3.00m'', [96, 96, 96]])))
   \<and> (INDENT @ ustr ''Beta 1.00m 3.00m'' @ replicate 31 32) @ ustr ''+200.00% '' @ [128012]
       = (INDENT @ pad_to (60 - 13) (ustr ''Beta 1.00m 3.00m''))
         @ fmt_2f True (Finite False 7036874417766400 (- 45)) @ [37, 32]
         @ get_icon (Finite False 7036874417766400 (- 45))
   \<and> int (length (INDENT @ pad_to (60 - 13) (ustr ''Beta 1.00m 3.00m''))) = 8 + (60 - 13)"
proof -
  let ?lines = "[[96, 96, 96], ustr ''Alpha                                        1.00m     2.00m'', ustr ''Beta 1.00m 3.00m'', [96, 96, 96]]"
  let ?out = "[[96, 96, 96],
          INDENT @ ustr ''Alpha                                        1.00m     2.00m''
            @ [32, 32] @ ustr ''+100.00% '' @ [128012],
          INDENT @ ustr ''Beta 1.00m 3.00m'' @ replicate 31 32 @ ustr ''+200.00% '' @ [128012],
          [96, 96, 96]]"
  have run: "second_pass ?lines (width_pass ?lines False 0) = Inr ?out"
    by (rule sixty_wide_run)
  have width: "60 = snd (width_pass ?lines False 0)"
    by (simp add: str_eval reflow_eval)
  have state: "second_pass_in_code ?lines 2"
    by (simp add: second_pass_in_code_def toggles_def str_eval reflow_eval)
  have kind: "\<not> is_fence (?lines ! 2)" "\<not> is_footnote (?lines ! 2)"
    "\<not> is_header (?lines ! 2)" "\<not> is_metadata (?lines ! 2)"
    by (simp_all add: str_eval reflow_eval)
  have numbers: "extract_two_numbers (split_ws (strip_worker_suffix (?lines ! 2)))
                   = Inr [milli, Finite False 6917529027641082 (- 61)]"
    by (simp add: str_eval reflow_eval float_eval float_consts)
  have base: "\<not> feq milli fzero"
    by (simp add: float_eval float_consts)
  have left: "ustr ''Beta 1.00m 3.00m'' = rstrip (strip_worker_suffix (?lines ! 2))"
    by (simp add: str_eval reflow_eval)
  have dv: "Finite False 7036874417766400 (- 45)
              = fmul (fdiv (fsub (Finite False 6917529027641082 (- 61)) milli) milli)
                  (float_of_int 100)"
    by (simp add: float_eval float_consts)
  have shorter: "int (length (ustr ''Beta 1.00m 3.00m'')) < 60 - 13"
    by (simp add: ustr_def)
  note fact = diff_column_offset [OF run width _ state kind numbers base left dv]
  have "(2::nat) < length ?lines" by simp
  from fact [OF this] have
    "(60::int) = Max (set (0 # map content_width (measured False ?lines)))"
    and "?out ! 2 = (INDENT @ pad_to (60 - 13) (ustr ''Beta 1.00m 3.00m''))
         @ fmt_2f True (Finite False 7036874417766400 (- 45)) @ [37, 32]
         @ get_icon (Finite False 7036874417766400 (- 45))"
    and "int (length (INDENT @ pad_to (60 - 13) (ustr ''Beta 1.00m 3.00m'')))
           = (if int (length (ustr ''Beta 1.00m 3.00m'')) < 60 - 13 then 8 + (60 - 13) else 8 + int (length (ustr ''Beta 1.00m 3.00m'')) + 2)"
    by blast+
  with shorter show ?thesis
    by simp
qed

end
